theory Spec2Isabelle
  imports Main "HOL-Library.AList" "HOL-Library.Char_ord" "HOL-Library.List_Lexorder"
begin

section \<open>Python values, exceptions and strings\<close>

text \<open>
  The extension runtime of \<^verbatim>\<open>src/gpodder/extensions.py\<close> is embedded function by
  function. Strings are \<open>char list\<close>; Python compares and sorts strings by code point,
  which is the lexicographic order on \<open>char list\<close> used here.
\<close>

text \<open>The exceptions the module raises, stores or wraps. \<open>ImportError\<close> carries its
  \<open>name\<close> attribute (None or a string) and its message; the two \<open>MissingDependency\<close>
  subclasses carry message, \<open>dependency\<close> and \<open>cause\<close>; \<open>Exception\<close> stands for any
  other instance of Python's \<open>Exception\<close>. \<open>SystemExit\<close> and \<open>KeyboardInterrupt\<close> derive from
  \<open>BaseException\<close> only: an \<open>except Exception\<close> clause does not catch them.\<close>

datatype exn =
    ImportError "string option" string
  | AttributeError string
  | TypeError string
  | MissingModule string string "exn option"
  | MissingCommand string string "exn option"
  | Exception string
  | SystemExit
  | KeyboardInterrupt

text \<open>\<open>isinstance(e, Exception)\<close>\<close>

fun is_Exception :: "exn \<Rightarrow> bool" where
  "is_Exception SystemExit = False"
| "is_Exception KeyboardInterrupt = False"
| "is_Exception _ = True"

text \<open>\<open>isinstance(e, MissingDependency)\<close>, and the \<open>dependency\<close> and \<open>cause\<close> fields.\<close>

fun is_MissingDependency :: "exn \<Rightarrow> bool" where
  "is_MissingDependency (MissingModule _ _ _) = True"
| "is_MissingDependency (MissingCommand _ _ _) = True"
| "is_MissingDependency _ = False"

fun dependency :: "exn \<Rightarrow> string option" where
  "dependency (MissingModule _ d _) = Some d"
| "dependency (MissingCommand _ d _) = Some d"
| "dependency _ = None"

fun cause :: "exn \<Rightarrow> exn option" where
  "cause (MissingModule _ _ c) = c"
| "cause (MissingCommand _ _ c) = c"
| "cause _ = None"

text \<open>The values a hook returns: \<open>None\<close>, a list, or something else.\<close>

datatype pyval =
    PyNone
  | PyList "pyval list"
  | PyTuple "pyval list"
  | PyStr string
  | PyBool bool
  | PyCallable string

fun is_list :: "pyval \<Rightarrow> bool" where
  "is_list (PyList _) = True"
| "is_list _ = False"

fun list_items :: "pyval \<Rightarrow> pyval list" where
  "list_items (PyList xs) = xs"
| "list_items _ = []"

text \<open>\<open>str.split(sep)\<close> for a one-character separator: never an empty result.\<close>

fun split_on :: "char \<Rightarrow> string \<Rightarrow> string list" where
  "split_on sep [] = [[]]"
| "split_on sep (x # xs) =
     (if x = sep then [] # split_on sep xs
      else (case split_on sep xs of
              [] \<Rightarrow> [[x]]
            | p # ps \<Rightarrow> (x # p) # ps))"

text \<open>\<open>sep.join(parts)\<close>\<close>

fun join :: "string \<Rightarrow> string list \<Rightarrow> string" where
  "join sep [] = []"
| "join sep [p] = p"
| "join sep (p # q # ps) = p @ sep @ join sep (q # ps)"

text \<open>\<open>str.strip()\<close>: the whitespace of \<open>str.isspace\<close> among the code points below 256.\<close>

definition is_space :: "char \<Rightarrow> bool" where
  "is_space c = (c \<in> set [CHR 0x09, CHR 0x0A, CHR 0x0B, CHR 0x0C, CHR 0x0D,
                            CHR 0x1C, CHR 0x1D, CHR 0x1E, CHR 0x1F, CHR 0x20,
                            CHR 0x85, CHR 0xA0])"

definition strip :: "string \<Rightarrow> string" where
  "strip s = rev (dropWhile is_space (rev (dropWhile is_space s)))"

text \<open>\<open>str.lower()\<close> on ASCII letters; other characters are left as they are.\<close>

definition lower_char :: "char \<Rightarrow> char" where
  "lower_char c =
     (case map_of (zip ''ABCDEFGHIJKLMNOPQRSTUVWXYZ'' ''abcdefghijklmnopqrstuvwxyz'') c of
        Some l \<Rightarrow> l
      | None \<Rightarrow> c)"

definition lower :: "string \<Rightarrow> string" where
  "lower s = map lower_char s"

text \<open>\<open>template % {'module': module}\<close> for a template whose only conversion is
  \<open>%(module)s\<close>: every occurrence is replaced.\<close>

fun format_module :: "string \<Rightarrow> string \<Rightarrow> string" where
  "format_module [] m = []"
| "format_module (x # xs) m =
     (if take 10 (x # xs) = ''%(module)s'' then m @ format_module (drop 9 xs) m
      else x # format_module xs m)"

section \<open>The host environment\<close>

text \<open>A callable attribute of a loaded extension, by what a call of it does.\<close>

datatype outcome = Returns pyval | Raises exn

type_synonym module = "string \<rightharpoonup> outcome"

type_synonym dcfg = "(string \<times> string) list"

text \<open>What executing an extension file leaves: its \<open>DefaultConfig\<close> attribute (if any)
  and what \<open>module_file.gPodderExtension(container)\<close> does.\<close>

record module_file =
  DefaultConfig :: "dcfg option"
  gPodderExtension :: "exn + module"

text \<open>
  Everything \<^verbatim>\<open>extensions.py\<close> reads from outside itself is a field of the environment:
  \<^item> \<open>gettext\<close>: \<open>gpodder.gettext\<close>;
  \<^item> \<open>ui\<close>: the attributes the object \<open>gpodder.ui\<close> has of its own or from its class,
    each with its truth value. Modelled from the spec: the UI-runtime context exposes
    boolean flags, so these are flag names with boolean values. The attributes that every
    Python object has are not in this table (see \<open>object_attributes\<close>);
  \<^item> \<open>path_exists\<close>, \<open>glob\<close>: \<open>os.path.exists\<close> and \<open>glob.glob\<close>;
  \<^item> \<open>prefix\<close>, \<open>home\<close>: \<open>gpodder.prefix\<close> and \<open>gpodder.home\<close>;
  \<^item> \<open>exec_module\<close>: loading the file at a path under a module name
    (\<open>SourceFileLoader\<close>, \<open>spec_from_file_location\<close>, \<open>module_from_spec\<close>,
    \<open>exec_module\<close>), which raises or yields the module.
\<close>

record env =
  gettext :: "string \<Rightarrow> string"
  ui :: "string \<rightharpoonup> bool"
  path_exists :: "string \<Rightarrow> bool"
  glob :: "string \<Rightarrow> string list"
  prefix :: string
  home :: string
  exec_module :: "string \<Rightarrow> string \<Rightarrow> exn + module_file"

section \<open>ExtensionMetadata\<close>

definition CATEGORY_DICT :: "env \<Rightarrow> string \<rightharpoonup> string" where
  "CATEGORY_DICT e =
     [''desktop-integration'' \<mapsto> gettext e ''Desktop Integration'',
      ''interface'' \<mapsto> gettext e ''Interface'',
      ''post-download'' \<mapsto> gettext e ''Post download'']"

definition DEFAULT_CATEGORY :: "env \<Rightarrow> string" where
  "DEFAULT_CATEGORY e = gettext e ''Other''"

text \<open>An attribute value of a metadata object: a string, \<open>None\<close>, or an object of
  another type (a method, a dict, a bool, a class), which has no \<open>split\<close>.\<close>

datatype attr = Str string | NoneVal | Obj

definition DEFAULTS :: "env \<Rightarrow> string \<rightharpoonup> attr" where
  "DEFAULTS e =
     [''description'' \<mapsto> Str (gettext e ''No description for this extension.''),
      ''doc'' \<mapsto> NoneVal,
      ''payment'' \<mapsto> NoneVal]"

text \<open>\<open>ExtensionMetadata.__init__(container, metadata)\<close>; the object is its instance
  dictionary, which \<open>self.__dict__.update(metadata)\<close> fills.\<close>

type_synonym metadata = "string \<rightharpoonup> string"

definition ExtensionMetadata_init :: "env \<Rightarrow> string \<Rightarrow> metadata \<Rightarrow> metadata" where
  "ExtensionMetadata_init e container_name metadata =
     (let metadata1 = (if metadata ''title'' = None
                       then metadata(''title'' \<mapsto> container_name) else metadata);
          category = (case metadata1 ''category'' of Some c \<Rightarrow> c | None \<Rightarrow> ''other'')
      in metadata1(''category'' \<mapsto>
           (case CATEGORY_DICT e category of
              Some label \<Rightarrow> label
            | None \<Rightarrow> DEFAULT_CATEGORY e)))"

text \<open>
  Attribute lookup on a metadata object, in Python's order: data descriptors of the
  class (the three properties, which yield booleans, and \<open>__class__\<close>, \<open>__dict__\<close>,
  \<open>__weakref__\<close> of \<open>object\<close>), then the instance dictionary, then the other class
  attributes, then \<open>__getattr__\<close>, which reads \<open>DEFAULTS\<close> and raises
  \<open>AttributeError\<close> for any other name.
\<close>

definition data_descriptors :: "string \<rightharpoonup> attr" where
  "data_descriptors =
     [''available_for_current_ui'' \<mapsto> Obj,
      ''mandatory_in_current_ui'' \<mapsto> Obj,
      ''disable_in_current_ui'' \<mapsto> Obj,
      ''__class__'' \<mapsto> Obj,
      ''__dict__'' \<mapsto> Obj,
      ''__weakref__'' \<mapsto> NoneVal]"

definition class_attributes :: "string \<rightharpoonup> attr" where
  "class_attributes =
     map_of ([(''__module__'', Str ''gpodder.extensions''), (''__doc__'', NoneVal)] @
       map (\<lambda>n. (n, Obj))
         [''DEFAULTS'', ''SORTKEYS'', ''__init__'', ''__getattr__'', ''get_sorted'',
          ''check_ui'', ''__delattr__'', ''__dir__'', ''__eq__'', ''__format__'',
          ''__ge__'', ''__getattribute__'', ''__getstate__'', ''__gt__'', ''__hash__'',
          ''__init_subclass__'', ''__le__'', ''__lt__'', ''__ne__'', ''__new__'',
          ''__reduce__'', ''__reduce_ex__'', ''__repr__'', ''__setattr__'',
          ''__sizeof__'', ''__str__'', ''__subclasshook__''])"

definition getattr_md :: "env \<Rightarrow> metadata \<Rightarrow> string \<Rightarrow> exn + attr" where
  "getattr_md e md n =
     (case data_descriptors n of
        Some a \<Rightarrow> Inr a
      | None \<Rightarrow>
          (case md n of
             Some v \<Rightarrow> Inr (Str v)
           | None \<Rightarrow>
               (case class_attributes n of
                  Some a \<Rightarrow> Inr a
                | None \<Rightarrow>
                    (case DEFAULTS e n of
                       Some a \<Rightarrow> Inr a
                     | None \<Rightarrow> Inl (AttributeError n)))))"

definition hasattr_md :: "env \<Rightarrow> metadata \<Rightarrow> string \<Rightarrow> bool" where
  "hasattr_md e md n = (case getattr_md e md n of Inr _ \<Rightarrow> True | Inl _ \<Rightarrow> False)"

text \<open>\<open>[_f for _f in [x.strip() for x in value.split(',')] if _f]\<close>\<close>

definition uis :: "string \<Rightarrow> string list" where
  "uis v = filter (\<lambda>f. f \<noteq> []) (map strip (split_on CHR '','' v))"

text \<open>The attributes every Python object inherits from \<open>object\<close> whatever its class: its
  class and the methods of \<open>object\<close>. Each is a truthy value, unless the class of
  \<open>gpodder.ui\<close> overrides it, which the table \<open>ui\<close> then records: the table is looked up
  first. (\<open>__doc__\<close>, \<open>__dict__\<close>, \<open>__module__\<close> and \<open>__weakref__\<close> depend on the class and
  are left to the table \<open>ui\<close>.)\<close>

definition object_attributes :: "string list" where
  "object_attributes =
     [''__class__'', ''__delattr__'', ''__dir__'', ''__eq__'', ''__format__'', ''__ge__'',
      ''__getattribute__'', ''__getstate__'', ''__gt__'', ''__hash__'', ''__init__'',
      ''__init_subclass__'', ''__le__'', ''__lt__'', ''__ne__'', ''__new__'', ''__reduce__'',
      ''__reduce_ex__'', ''__repr__'', ''__setattr__'', ''__sizeof__'', ''__str__'',
      ''__subclasshook__'']"

text \<open>The truth value of \<open>getattr(gpodder.ui, ui.lower(), False)\<close>: that of the attribute
  when \<open>gpodder.ui\<close> has one of that name, and false otherwise.\<close>

definition ui_flag :: "env \<Rightarrow> string \<Rightarrow> bool" where
  "ui_flag e u =
     (case ui e (lower u) of
        Some b \<Rightarrow> b
      | None \<Rightarrow> lower u \<in> set object_attributes)"

definition check_ui :: "env \<Rightarrow> metadata \<Rightarrow> string \<Rightarrow> bool \<Rightarrow> exn + bool" where
  "check_ui e md target dflt =
     (if \<not> hasattr_md e md target then Inr dflt
      else (case getattr_md e md target of
              Inl err \<Rightarrow> Inl err
            | Inr (Str v) \<Rightarrow> Inr (list_ex (ui_flag e) (uis v))
            | Inr _ \<Rightarrow> Inl (AttributeError ''split'')))"

text \<open>The three properties call \<open>self.check_ui\<close>. A file that declares a field named
  like a method of the class (\<open>__check_ui__ = '...'\<close>) would shadow the method with a
  string; such metadata is outside the model.\<close>

definition available_for_current_ui :: "env \<Rightarrow> metadata \<Rightarrow> exn + bool" where
  "available_for_current_ui e md = check_ui e md ''only_for'' True"

definition mandatory_in_current_ui :: "env \<Rightarrow> metadata \<Rightarrow> exn + bool" where
  "mandatory_in_current_ui e md = check_ui e md ''mandatory_in'' False"

definition disable_in_current_ui :: "env \<Rightarrow> metadata \<Rightarrow> exn + bool" where
  "disable_in_current_ui e md = check_ui e md ''disable_in'' False"

section \<open>Paths\<close>

text \<open>\<open>os.path.basename\<close>, \<open>os.path.splitext\<close> and \<open>os.path.join\<close> of \<open>posixpath\<close>;
  \<open>rfind\<close> is \<open>str.rfind\<close> with \<open>None\<close> for \<open>-1\<close>.\<close>

definition rfind :: "char \<Rightarrow> string \<Rightarrow> nat option" where
  "rfind c p =
     (if c \<in> set p then Some (length p - 1 - length (takeWhile (\<lambda>x. x \<noteq> c) (rev p)))
      else None)"

definition basename :: "string \<Rightarrow> string" where
  "basename p = (case rfind CHR ''/'' p of None \<Rightarrow> p | Some i \<Rightarrow> drop (i + 1) p)"

definition splitext :: "string \<Rightarrow> string \<times> string" where
  "splitext p =
     (case rfind CHR ''.'' p of
        None \<Rightarrow> (p, [])
      | Some dotIndex \<Rightarrow>
          (let filenameIndex = (case rfind CHR ''/'' p of None \<Rightarrow> 0 | Some sepIndex \<Rightarrow> sepIndex + 1)
           in if filenameIndex \<le> dotIndex \<and>
                 list_ex (\<lambda>c. c \<noteq> CHR ''.'') (take (dotIndex - filenameIndex) (drop filenameIndex p))
              then (take dotIndex p, drop dotIndex p)
              else (p, [])))"

definition path_join2 :: "string \<Rightarrow> string \<Rightarrow> string" where
  "path_join2 path b =
     (if take 1 b = ''/'' then b
      else if path = [] \<or> last path = CHR ''/'' then path @ b
      else path @ ''/'' @ b)"

definition path_join :: "string \<Rightarrow> string list \<Rightarrow> string" where
  "path_join a ps = foldl path_join2 a ps"

text \<open>\<open>re.sub(r'^[0-9]*_', '', name)\<close>: the longest run of ASCII digits at the start,
  then one underscore; without the underscore nothing matches.\<close>

definition is_digit :: "char \<Rightarrow> bool" where
  "is_digit c = (c \<in> set ''0123456789'')"

definition strip_ordering_prefix :: "string \<Rightarrow> string" where
  "strip_ordering_prefix n =
     (case dropWhile is_digit n of
        [] \<Rightarrow> n
      | c # rest \<Rightarrow> if c = CHR ''_'' then rest else n)"

section \<open>State: the log, the calls made, the persisted configuration\<close>

datatype level = Debug | Info | Warning | Error

datatype logarg = ArgStr string | ArgNone | ArgExn exn | ArgAttr attr

text \<open>What the code does to the world around it, in order: a \<open>logger\<close> call with its
  format and arguments, a call of a callable of an extension (container name and
  attribute name), \<open>util.delete_file\<close>, \<open>config.register_defaults\<close>.\<close>

datatype event =
    Log level string "logarg list"
  | Call string string
  | DeleteFile string
  | RegisterDefaults string dcfg

text \<open>\<open>extensions_enabled\<close> is \<open>core.config.extensions.enabled\<close>. Assigning it is a
  plain store here: how the configuration layer notifies its observers is not part of
  \<^verbatim>\<open>extensions.py\<close>.\<close>

record sys =
  trace :: "event list"
  extensions_enabled :: "string list"

text \<open>The two log formats that contain double quotes.\<close>

definition fmt_not_loading :: string where
  \<open>fmt_not_loading = ''Not loading "%s" (only_for = "%s")''\<close>


definition emit :: "event \<Rightarrow> sys \<Rightarrow> sys" where
  "emit ev s = s\<lparr>trace := trace s @ [ev]\<rparr>"

definition opt_arg :: "string option \<Rightarrow> logarg" where
  "opt_arg x = (case x of None \<Rightarrow> ArgNone | Some v \<Rightarrow> ArgStr v)"

definition exn_arg :: "exn option \<Rightarrow> logarg" where
  "exn_arg x = (case x of None \<Rightarrow> ArgNone | Some v \<Rightarrow> ArgExn v)"

section \<open>ExtensionContainer\<close>

text \<open>The slice of the configuration a container holds: the one it was built with, or
  \<open>getattr(core.config.extensions, name)\<close> after a load.\<close>

datatype config_handle = Initial | ConfigOf string

text \<open>The fields of a container; \<open>manager\<close> (a back reference) and \<open>parameters\<close>
  (never read) are left out.\<close>

record container =
  name :: string
  config :: config_handle
  filename :: "string option"
  module :: "module option"
  enabled :: bool
  error :: "exn option"
  default_config :: "dcfg option"
  metadata :: metadata

text \<open>\<open>load_extension\<close>: the exception it raises (if any), the container and the state
  as it leaves them.\<close>

definition load_extension :: "env \<Rightarrow> container \<Rightarrow> sys \<Rightarrow> exn option \<times> container \<times> sys" where
  "load_extension e c s =
     (if module c \<noteq> None then (None, c, emit (Log Info ''Module already loaded.'' []) s)
      else
        (case available_for_current_ui e (metadata c) of
           Inl ex \<Rightarrow> (Some ex, c, s)
         | Inr False \<Rightarrow>
             (case getattr_md e (metadata c) ''only_for'' of
                Inl ex \<Rightarrow> (Some ex, c, s)
              | Inr a \<Rightarrow>
                  (None, c, emit (Log Info fmt_not_loading
                                     [ArgStr (name c), ArgAttr a]) s))
         | Inr True \<Rightarrow>
             (case filename c of
                None \<Rightarrow> (Some (TypeError ''expected str, bytes or os.PathLike object''), c, s)
              | Some fn \<Rightarrow>
                  (let basename = fst (splitext (basename fn));
                       s1 = emit (DeleteFile (fn @ ''c'')) s
                   in case exec_module e basename fn of
                        Inl ex \<Rightarrow> (Some ex, c, s1)
                      | Inr module_file \<Rightarrow>
                          (let dc = (case DefaultConfig module_file of None \<Rightarrow> [] | Some d \<Rightarrow> d);
                               c1 = c\<lparr>default_config := Some dc\<rparr>;
                               s2 = (if dc \<noteq> [] then emit (RegisterDefaults (name c) dc) s1 else s1);
                               c2 = c1\<lparr>config := ConfigOf (name c)\<rparr>
                           in case gPodderExtension module_file of
                                Inl ex \<Rightarrow> (Some ex, c2, s2)
                              | Inr m \<Rightarrow>
                                  (None, c2\<lparr>module := Some m\<rparr>,
                                   emit (Log Info ''Module loaded: %s'' [ArgStr fn]) s2))))))"

text \<open>The \<open>except\<close> block of the enabling branch of \<open>set_enabled\<close>.\<close>

definition enable_failed :: "env \<Rightarrow> exn \<Rightarrow> container \<Rightarrow> sys \<Rightarrow> container \<times> sys" where
  "enable_failed e exception c s =
     (let s1 = emit (Log Error ''Cannot load %s from %s: %s''
                       [ArgStr (name c), opt_arg (filename c), ArgExn exception]) s;
          exception1 =
            (case exception of
               ImportError exception_name msg0 \<Rightarrow>
                 (case exception_name of
                    None \<Rightarrow> exception
                  | Some module_name \<Rightarrow>
                      if module_name = [] then exception
                      else MissingCommand
                             (format_module (gettext e ''Python module not found: %(module)s'')
                                module_name)
                             module_name (Some exception))
             | _ \<Rightarrow> exception)
      in (c\<lparr>error := Some exception1, enabled := False\<rparr>, s1))"

text \<open>\<open>getattr(self.module, n, None)\<close>, with \<open>self.module\<close> possibly \<open>None\<close>.\<close>

definition module_attr :: "container \<Rightarrow> string \<Rightarrow> outcome option" where
  "module_attr c n = (case module c of None \<Rightarrow> None | Some m \<Rightarrow> m n)"

text \<open>\<open>set_enabled\<close>: the exception that leaves it (if any), the container and the state
  as it leaves them. Both handlers are \<open>except Exception\<close>: an exception outside
  \<open>Exception\<close> passes through them, and the assignments after the raise are not run.\<close>

definition returns :: "container \<times> sys \<Rightarrow> exn option \<times> container \<times> sys" where
  "returns cs = (None, fst cs, snd cs)"

definition set_enabled :: "env \<Rightarrow> bool \<Rightarrow> container \<Rightarrow> sys \<Rightarrow> exn option \<times> container \<times> sys" where
  "set_enabled e enabled_arg c s =
     (if enabled_arg \<and> \<not> enabled c then
        (case load_extension e c s of
           (Some ex, c1, s1) \<Rightarrow>
             if is_Exception ex then returns (enable_failed e ex c1 s1) else (Some ex, c1, s1)
         | (None, c1, s1) \<Rightarrow>
             (let c2 = c1\<lparr>error := None, enabled := True\<rparr>
              in case module_attr c2 ''on_load'' of
                   None \<Rightarrow> (None, c2, s1)
                 | Some call \<Rightarrow>
                     (let s2 = emit (Call (name c2) ''on_load'') s1
                      in case call of
                           Returns _ \<Rightarrow> (None, c2, s2)
                         | Raises ex \<Rightarrow>
                             if is_Exception ex then returns (enable_failed e ex c2 s2)
                             else (Some ex, c2, s2))))
      else if \<not> enabled_arg \<and> enabled c then
        (case module_attr c ''on_unload'' of
           None \<Rightarrow> (None, c\<lparr>enabled := False\<rparr>, s)
         | Some call \<Rightarrow>
             (let s2 = emit (Call (name c) ''on_unload'') s
              in case call of
                   Returns _ \<Rightarrow> (None, c\<lparr>enabled := False\<rparr>, s2)
                 | Raises ex \<Rightarrow>
                     if is_Exception ex
                     then (None, c\<lparr>enabled := False\<rparr>,
                           emit (Log Error ''Failed to on_unload %s: %s''
                                   [ArgStr (name c), ArgExn ex]) s2)
                     else (Some ex, c, s2)))
      else (None, c, s))"

section \<open>ExtensionManager\<close>

record manager =
  filenames :: "string list"
  containers :: "container list"

subsection \<open>Event dispatch: the \<open>call_extensions\<close> decorator\<close>

text \<open>One pass of the body of the \<open>for\<close> loop of \<open>handler\<close>, on the running \<open>result\<close>:
  the exception that leaves the \<open>try\<close> statement (if any), the result and the state.
  The handler is \<open>except Exception\<close>. \<open>result.extend(cb_res)\<close> extends in place the list an
  earlier hook returned; the model follows the value of the aggregate, which is the
  concatenation of the two lists.\<close>

definition call_step :: "string \<Rightarrow> container \<Rightarrow> pyval \<times> sys \<Rightarrow> exn option \<times> pyval \<times> sys" where
  "call_step method_name c st =
     (case st of (result, s) \<Rightarrow>
        if \<not> enabled c \<or> module c = None then (None, result, s)
        else
          (case module_attr c method_name of
             None \<Rightarrow> (None, result, s)
           | Some callback \<Rightarrow>
               (let s1 = emit (Call (name c) method_name) s
                in case callback of
                     Returns cb_res \<Rightarrow>
                       if is_list result \<and> is_list cb_res
                       then (None, PyList (list_items result @ list_items cb_res), s1)
                       else if cb_res \<noteq> PyNone then (None, cb_res, s1)
                       else (None, result, s1)
                   | Raises exception \<Rightarrow>
                       if is_Exception exception
                       then (None, result,
                             emit (Log Error ''Error in %s in %s: %s''
                                     [opt_arg (filename c), ArgStr method_name, ArgExn exception])
                               s1)
                       else (Some exception, result, s1))))"

text \<open>The loop: an exception that leaves one pass leaves the loop.\<close>

fun call_loop :: "string \<Rightarrow> container list \<Rightarrow> pyval \<times> sys \<Rightarrow> exn option \<times> pyval \<times> sys" where
  "call_loop method_name [] st = (None, st)"
| "call_loop method_name (c # cs) st =
     (case call_step method_name c st of
        (Some exception, st1) \<Rightarrow> (Some exception, st1)
      | (None, st1) \<Rightarrow> call_loop method_name cs st1)"




subsection \<open>Reaction to a configuration change\<close>




subsection \<open>Discovery\<close>

text \<open>The loop of \<open>_find_extensions\<close>; the dict \<open>extensions\<close> is an association list in
  insertion order, and \<open>extensions[name] = filename\<close> replaces in place or appends.\<close>

fun scan_filenames ::
  "env \<Rightarrow> string list \<Rightarrow> (string \<times> string) list \<Rightarrow> sys \<Rightarrow> (string \<times> string) list \<times> sys" where
  "scan_filenames e [] extensions s = (extensions, s)"
| "scan_filenames e (fn # fns) extensions s =
     (if fn = [] \<or> \<not> path_exists e fn
      then scan_filenames e fns extensions
             (emit (Log Info ''Skipping non-existing file: %s'' [ArgStr fn]) s)
      else
        (let n = fst (splitext (basename fn));
             n1 = strip_ordering_prefix n
         in scan_filenames e fns (AList.update n1 fn extensions) s))"

text \<open>\<open>sorted(extensions.items(), key=lambda i: i[1])\<close> is the stable sort by the
  second component.\<close>

definition find_extensions ::
  "env \<Rightarrow> manager \<Rightarrow> sys \<Rightarrow> (string \<times> string) list \<times> manager \<times> sys" where
  "find_extensions e self s =
     (let self1 =
            (if filenames self = [] then
               (let builtins = path_join (prefix e) [''share'', ''gpodder'', ''extensions'', ''*.py''];
                    user_extensions = path_join (home e) [''Extensions'', ''*.py'']
                in self\<lparr>filenames := glob e builtins @ glob e user_extensions\<rparr>)
             else self)
      in case scan_filenames e (filenames self1) [] s of
           (extensions, s1) \<Rightarrow> (sort_key snd extensions, self1, s1))"

text \<open>\<open>ExtensionContainer.__init__\<close>; \<open>loaded_metadata\<close> is what
  \<open>self._load_metadata(filename)\<close> returns (the text scan of the file is not modelled).\<close>

definition ExtensionContainer_init ::
  "env \<Rightarrow> string \<Rightarrow> config_handle \<Rightarrow> string option \<Rightarrow> module option \<Rightarrow> metadata \<Rightarrow> container" where
  "ExtensionContainer_init e n cfg fn m loaded_metadata =
     \<lparr>name = n, config = cfg, filename = fn, module = m, enabled = False, error = None,
      default_config = None, metadata = ExtensionMetadata_init e n loaded_metadata\<rparr>"

section \<open>Specification-level notions\<close>

text \<open>\<open>isinstance(e, MissingModule)\<close> and \<open>isinstance(e, ImportError)\<close>.\<close>

fun is_MissingModule :: "exn \<Rightarrow> bool" where
  "is_MissingModule (MissingModule _ _ _) = True"
| "is_MissingModule _ = False"

fun is_ImportError :: "exn \<Rightarrow> bool" where
  "is_ImportError (ImportError _ _) = True"
| "is_ImportError _ = False"

text \<open>The category label as the specification words it: the fixed table on the declared
  key, and the "Other" label when the key is absent or not in the table.\<close>

definition spec_category_label :: "env \<Rightarrow> string option \<Rightarrow> string" where
  "spec_category_label e declared =
     (case declared of
        None \<Rightarrow> gettext e ''Other''
      | Some k \<Rightarrow>
          if k = ''desktop-integration'' then gettext e ''Desktop Integration''
          else if k = ''interface'' then gettext e ''Interface''
          else if k = ''post-download'' then gettext e ''Post download''
          else gettext e ''Other'')"

text \<open>A name that resolves on every metadata object, whatever the file declares: a
  class attribute or a key of \<open>DEFAULTS\<close>.\<close>

definition resolves_without_field :: "env \<Rightarrow> string \<Rightarrow> bool" where
  "resolves_without_field e n =
     (data_descriptors n \<noteq> None \<or> class_attributes n \<noteq> None \<or> DEFAULTS e n \<noteq> None)"

text \<open>The three fields the code passes to \<open>check_ui\<close>.\<close>

definition ui_fields :: "string list" where
  "ui_fields = [''only_for'', ''mandatory_in'', ''disable_in'']"

text \<open>The aggregation policy as the specification words it: two lists are
  concatenated; otherwise a value that is not \<open>None\<close> replaces the aggregate.\<close>

definition spec_aggregate :: "pyval \<Rightarrow> pyval \<Rightarrow> pyval" where
  "spec_aggregate agg v =
     (if is_list agg \<and> is_list v then PyList (list_items agg @ list_items v)
      else if v \<noteq> PyNone then v
      else agg)"

text \<open>A container whose hook \<open>m\<close> a dispatch invokes: enabled, loaded, and defining \<open>m\<close>.\<close>

definition visited :: "string \<Rightarrow> container \<Rightarrow> bool" where
  "visited m c = (enabled c \<and> module c \<noteq> None \<and> module_attr c m \<noteq> None)"

text \<open>What the hook \<open>m\<close> of a container contributes: its return value, if it is invoked
  and returns.\<close>

definition hook_returns :: "string \<Rightarrow> container \<Rightarrow> pyval list" where
  "hook_returns m c =
     (if visited m c then (case module_attr c m of Some (Returns v) \<Rightarrow> [v] | _ \<Rightarrow> []) else [])"

text \<open>What a dispatch of \<open>m\<close> records for a container: the call, if its hook is invoked,
  and one logged error if the hook raises an instance of \<open>Exception\<close>.\<close>

definition dispatch_events :: "string \<Rightarrow> container \<Rightarrow> event list" where
  "dispatch_events m c =
     (if visited m c then
        Call (name c) m #
          (case module_attr c m of
             Some (Raises ex) \<Rightarrow>
               if is_Exception ex
               then [Log Error ''Error in %s in %s: %s''
                       [opt_arg (filename c), ArgStr m, ArgExn ex]]
               else []
           | _ \<Rightarrow> [])
      else [])"

text \<open>The exception outside \<open>Exception\<close> that the hook \<open>m\<close> of a container raises, if it
  is invoked and raises one; the containers a dispatch reaches (up to and including the
  first whose hook raises such an exception); and the exception that ends the dispatch.\<close>

definition aborts :: "string \<Rightarrow> container \<Rightarrow> exn option" where
  "aborts m c =
     (if visited m c then
        (case module_attr c m of
           Some (Raises ex) \<Rightarrow> if is_Exception ex then None else Some ex
         | _ \<Rightarrow> None)
      else None)"

fun dispatched :: "string \<Rightarrow> container list \<Rightarrow> container list" where
  "dispatched m [] = []"
| "dispatched m (c # cs) = c # (if aborts m c = None then dispatched m cs else [])"

fun first_abort :: "string \<Rightarrow> container list \<Rightarrow> exn option" where
  "first_abort m [] = None"
| "first_abort m (c # cs) = (case aborts m c of None \<Rightarrow> first_abort m cs | Some ex \<Rightarrow> Some ex)"





text \<open>The name \<open>_find_extensions\<close> derives from a filename, and the filenames it keeps.\<close>

definition derived_name :: "string \<Rightarrow> string" where
  "derived_name fn = strip_ordering_prefix (fst (splitext (basename fn)))"

definition candidate :: "env \<Rightarrow> string \<Rightarrow> bool" where
  "candidate e fn = (fn \<noteq> [] \<and> path_exists e fn)"

section \<open>Example data\<close>

definition host0 :: env where
  "host0 =
     \<lparr>gettext = (\<lambda>s. s),
      ui = [''gtk'' \<mapsto> True, ''cli'' \<mapsto> False],
      path_exists = (\<lambda>p. True),
      glob = (\<lambda>p. []),
      prefix = ''/usr'',
      home = ''/home/user/gPodder'',
      exec_module = (\<lambda>n p.
        if p = ''/ext/broken.py''
        then Inl (ImportError (Some ''nonexistent_module'') ''No module named nonexistent_module'')
        else if p = ''/ext/anonymous.py''
        then Inl (ImportError None ''cannot continue'')
        else if p = ''/ext/hook_fails.py''
        then Inr \<lparr>DefaultConfig = None,
                  gPodderExtension = Inr [''on_load'' \<mapsto> Raises (Exception ''boom'')]\<rparr>
        else if p = ''/ext/hook_imports.py''
        then Inr \<lparr>DefaultConfig = None,
                  gPodderExtension =
                    Inr [''on_load'' \<mapsto> Raises (ImportError (Some ''dbus'') ''No module named dbus'')]\<rparr>
        else Inr \<lparr>DefaultConfig = None, gPodderExtension = Inr Map.empty\<rparr>)\<rparr>"

definition s0 :: sys where
  "s0 = \<lparr>trace = [], extensions_enabled = [''broken'', ''other'']\<rparr>"

definition broken :: container where
  "broken =
     ExtensionContainer_init host0 ''broken'' Initial (Some ''/ext/broken.py'') None Map.empty"

definition unity_only :: container where
  "unity_only =
     ExtensionContainer_init host0 ''tray'' Initial (Some ''/ext/tray.py'') None
       [''only_for'' \<mapsto> ''unity'']"

definition hook_fails :: container where
  "hook_fails =
     ExtensionContainer_init host0 ''hook_fails'' Initial (Some ''/ext/hook_fails.py'') None
       Map.empty"

definition hook_imports :: container where
  "hook_imports =
     ExtensionContainer_init host0 ''hook_imports'' Initial (Some ''/ext/hook_imports.py'') None
       Map.empty"

text \<open>A container that was built with a module whose \<open>on_load\<close> exits the interpreter.\<close>

definition hook_exits :: container where
  "hook_exits =
     ExtensionContainer_init host0 ''hook_exits'' Initial (Some ''/ext/hook_exits.py'')
       (Some [''on_load'' \<mapsto> Raises SystemExit]) Map.empty"

definition loaded :: "string \<Rightarrow> module \<Rightarrow> container" where
  "loaded n m =
     (ExtensionContainer_init host0 n Initial (Some (''/ext/'' @ n @ ''.py'')) None Map.empty)
       \<lparr>module := Some m, enabled := True\<rparr>"

definition menu_entry :: "string \<Rightarrow> string \<Rightarrow> pyval" where
  "menu_entry label callback = PyTuple [PyStr label, PyCallable callback]"

definition ext_a :: container where
  "ext_a = loaded ''a'' [''on_create_menu'' \<mapsto> Returns (PyList [menu_entry ''x'' ''f''])]"

definition ext_b :: container where
  "ext_b = loaded ''b'' [''on_create_menu'' \<mapsto> Returns (PyList [menu_entry ''y'' ''g''])]"

definition ext_raising :: container where
  "ext_raising = loaded ''r'' [''on_create_menu'' \<mapsto> Raises (Exception ''boom'')]"

definition ext_exiting :: container where
  "ext_exiting = loaded ''q'' [''on_create_menu'' \<mapsto> Raises SystemExit]"

definition host_dirs :: env where
  "host_dirs =
     host0\<lparr>glob := (\<lambda>p.
       if p = ''/usr/share/gpodder/extensions/*.py''
       then [''/usr/share/gpodder/extensions/bar.py'', ''/usr/share/gpodder/extensions/foo.py'']
       else if p = ''/home/user/gPodder/Extensions/*.py''
       then [''/home/user/gPodder/Extensions/foo.py'']
       else [])\<rparr>"



section \<open>Splitting and stripping\<close>

lemma split_on_nonempty: "split_on sep s \<noteq> []"
  by (induction s) (auto split: list.splits)

lemma split_on_chars: "(\<Union>p \<in> set (split_on sep s). set p) = set s - {sep}"
proof (induction s)
  case Nil
  show ?case by simp
next
  case (Cons x xs)
  show ?case
  proof (cases "x = sep")
    case True
    with Cons.IH show ?thesis by auto
  next
    case False
    obtain p ps where sp: "split_on sep xs = p # ps"
      using split_on_nonempty [of sep xs] by (cases "split_on sep xs") auto
    with Cons.IH False show ?thesis by auto
  qed
qed

lemma split_on_no_sep: "p \<in> set (split_on sep s) \<Longrightarrow> sep \<notin> set p"
  using split_on_chars [of sep s] by auto

lemma join_split_on: "join [sep] (split_on sep s) = s"
proof (induction s)
  case Nil
  show ?case by simp
next
  case (Cons x xs)
  obtain p ps where sp: "split_on sep xs = p # ps"
    using split_on_nonempty [of sep xs] by (cases "split_on sep xs") auto
  with Cons.IH show ?case
    by (cases ps) auto
qed

lemma strip_empty_iff: "strip s = [] \<longleftrightarrow> (\<forall>c \<in> set s. is_space c)"
proof
  assume "strip s = []"
  then have all: "\<forall>c \<in> set (dropWhile is_space s). is_space c"
    by (simp add: strip_def dropWhile_eq_Nil_conv)
  have "dropWhile is_space s = []"
  proof (rule ccontr)
    assume ne: "dropWhile is_space s \<noteq> []"
    then have "\<not> is_space (hd (dropWhile is_space s))"
      by (rule hd_dropWhile)
    moreover have "hd (dropWhile is_space s) \<in> set (dropWhile is_space s)"
      using ne by simp
    ultimately show False
      using all by blast
  qed
  then show "\<forall>c \<in> set s. is_space c"
    by (simp add: dropWhile_eq_Nil_conv)
next
  assume "\<forall>c \<in> set s. is_space c"
  then show "strip s = []"
    by (auto simp: strip_def dropWhile_eq_Nil_conv dest: set_dropWhileD)
qed

lemma uis_empty_iff: "uis v = [] \<longleftrightarrow> (\<forall>c \<in> set v. c = CHR '','' \<or> is_space c)"
proof -
  have "uis v = [] \<longleftrightarrow> (\<forall>p \<in> set (split_on CHR '','' v). \<forall>c \<in> set p. is_space c)"
    by (simp add: uis_def filter_empty_conv strip_empty_iff)
  also have "\<dots> \<longleftrightarrow> (\<forall>c \<in> (\<Union>p \<in> set (split_on CHR '','' v). set p). is_space c)"
    by blast
  also have "\<dots> \<longleftrightarrow> (\<forall>c \<in> set v. c = CHR '','' \<or> is_space c)"
    unfolding split_on_chars by blast
  finally show ?thesis .
qed

section \<open>Evaluation of the examples\<close>

lemmas metadata_eval =
  check_ui_def hasattr_md_def getattr_md_def data_descriptors_def class_attributes_def
  DEFAULTS_def ExtensionMetadata_init_def CATEGORY_DICT_def DEFAULT_CATEGORY_def uis_def
  strip_def is_space_def ui_flag_def object_attributes_def lower_def lower_char_def
  available_for_current_ui_def
  mandatory_in_current_ui_def disable_in_current_ui_def

lemmas container_eval =
  set_enabled_def returns_def load_extension_def enable_failed_def module_attr_def
  ExtensionContainer_init_def emit_def opt_arg_def exn_arg_def splitext_def basename_def
  rfind_def

section \<open>Metadata\<close>

lemma check_ui_declared:
  assumes "data_descriptors target = None" and "md target = Some v"
  shows "check_ui e md target dflt = Inr (list_ex (ui_flag e) (uis v))"
  using assms by (simp add: check_ui_def hasattr_md_def getattr_md_def)

lemma check_ui_absent:
  assumes "md target = None" and "\<not> resolves_without_field e target"
  shows "check_ui e md target dflt = Inr dflt"
  using assms
  by (simp add: check_ui_def hasattr_md_def getattr_md_def resolves_without_field_def)

lemma ui_fields_plain:
  assumes "target \<in> set ui_fields"
  shows "data_descriptors target = None \<and> \<not> resolves_without_field e target"
proof -
  consider "target = ''only_for''" | "target = ''mandatory_in''" | "target = ''disable_in''"
    using assms by (auto simp: ui_fields_def)
  then show ?thesis
  proof cases
    case 1
    then show ?thesis
      by (simp add: resolves_without_field_def data_descriptors_def class_attributes_def
          DEFAULTS_def)
  next
    case 2
    then show ?thesis
      by (simp add: resolves_without_field_def data_descriptors_def class_attributes_def
          DEFAULTS_def)
  next
    case 3
    then show ?thesis
      by (simp add: resolves_without_field_def data_descriptors_def class_attributes_def
          DEFAULTS_def)
  qed
qed


text \<open>
  C9. For every constructed ExtensionMetadata, the title resolves to the declared value,
  or to the container's name when none is declared; the category resolves to the display
  label of the declared key in the fixed table, and to the "Other" label when the key is
  absent or not in the table.
\<close>

theorem metadata_title_category:
  "getattr_md e (ExtensionMetadata_init e n md) ''title''
     = Inr (Str (case md ''title'' of Some t \<Rightarrow> t | None \<Rightarrow> n))
   \<and> getattr_md e (ExtensionMetadata_init e n md) ''category''
     = Inr (Str (spec_category_label e (md ''category'')))"
proof -
  have dd: "data_descriptors ''title'' = None" "data_descriptors ''category'' = None"
    by (simp_all add: data_descriptors_def)
  have title: "ExtensionMetadata_init e n md ''title''
                 = Some (case md ''title'' of Some t \<Rightarrow> t | None \<Rightarrow> n)"
    by (simp add: ExtensionMetadata_init_def Let_def split: option.splits)
  have category: "ExtensionMetadata_init e n md ''category''
                    = Some (spec_category_label e (md ''category''))"
    by (simp add: ExtensionMetadata_init_def Let_def spec_category_label_def CATEGORY_DICT_def
        DEFAULT_CATEGORY_def split: option.splits)
  show ?thesis
    by (simp add: getattr_md_def dd title category)
qed

theorem metadata_title_category_witness:
  "getattr_md host0 (ExtensionMetadata_init host0 ''tray'' [''category'' \<mapsto> ''interface''])
     ''title'' = Inr (Str ''tray'')
   \<and> getattr_md host0 (ExtensionMetadata_init host0 ''tray'' [''category'' \<mapsto> ''interface''])
     ''category'' = Inr (Str ''Interface'')"
  using metadata_title_category [of host0 "''tray''" "[''category'' \<mapsto> ''interface'']"]
  by (simp add: spec_category_label_def host0_def)




text \<open>
  C10. For a declared UI field (\<open>only_for\<close>, \<open>mandatory_in\<close>, \<open>disable_in\<close>) whose value
  yields no token after splitting on commas, trimming and dropping empties, check_ui
  returns false whatever the default; the default is returned when the field is absent.
  The values that yield no token are those made of commas and whitespace only.
\<close>

theorem check_ui_no_tokens:
  assumes "target \<in> set ui_fields"
  shows "(md target = Some v \<and> uis v = [] \<longrightarrow> check_ui e md target dflt = Inr False)
         \<and> (md target = None \<longrightarrow> check_ui e md target dflt = Inr dflt)
         \<and> (uis v = [] \<longleftrightarrow> (\<forall>c \<in> set v. c = CHR '','' \<or> is_space c))"
proof -
  note plain = ui_fields_plain [OF assms, of e]
  have declared: "check_ui e md target dflt = Inr False" if "md target = Some v" and "uis v = []"
    using check_ui_declared [of target md v e dflt] plain that by simp
  have absent: "check_ui e md target dflt = Inr dflt" if "md target = None"
    using check_ui_absent [of md target e dflt] plain that by simp
  from declared absent uis_empty_iff [of v] show ?thesis
    by blast
qed

theorem check_ui_no_tokens_witness:
  "''mandatory_in'' \<in> set ui_fields
   \<and> uis '' , ,,  '' = []
   \<and> check_ui host0 [''mandatory_in'' \<mapsto> '' , ,,  ''] ''mandatory_in'' True = Inr False
   \<and> check_ui host0 Map.empty ''mandatory_in'' True = Inr True"
proof -
  have t: "''mandatory_in'' \<in> set ui_fields"
    by (simp add: ui_fields_def)
  have u: "uis '' , ,,  '' = []"
    by (simp add: uis_def strip_def is_space_def)
  have declared: "check_ui host0 [''mandatory_in'' \<mapsto> '' , ,,  ''] ''mandatory_in'' True = Inr False"
    using check_ui_no_tokens [OF t, of "[''mandatory_in'' \<mapsto> '' , ,,  '']" "'' , ,,  ''" host0 True,
        THEN conjunct1] u
    by simp
  have absent: "check_ui host0 Map.empty ''mandatory_in'' True = Inr True"
    using check_ui_no_tokens [OF t, of Map.empty "[]" host0 True, THEN conjunct2, THEN conjunct1]
    by simp
  from t u declared absent show ?thesis
    by simp
qed

section \<open>Enabling a container\<close>

lemma enable_failed_fields:
  "enabled (fst (enable_failed e ex c s)) = False"
  "module (fst (enable_failed e ex c s)) = module c"
  "name (fst (enable_failed e ex c s)) = name c"
  "snd (enable_failed e ex c s)
     = emit (Log Error ''Cannot load %s from %s: %s''
               [ArgStr (name c), opt_arg (filename c), ArgExn ex]) s"
  by (simp_all add: enable_failed_def Let_def)

lemma enable_failed_error_other:
  assumes "\<not> is_ImportError ex"
  shows "error (fst (enable_failed e ex c s)) = Some ex"
  using assms by (cases ex) (simp_all add: enable_failed_def Let_def)

lemma enable_failed_error_import:
  "error (fst (enable_failed e (ImportError nm msg) c s))
     = Some (if nm = None \<or> nm = Some [] then ImportError nm msg
             else MissingCommand
                    (format_module (gettext e ''Python module not found: %(module)s'') (the nm))
                    (the nm) (Some (ImportError nm msg)))"
  by (cases nm) (simp_all add: enable_failed_def Let_def)

lemma enable_failed_error_Some:
  "error (fst (enable_failed e ex c s)) \<noteq> None"
  by (simp add: enable_failed_def Let_def)

lemma set_enabled_load_raises:
  assumes "\<not> enabled c" and "load_extension e c s = (Some ex, c1, s1)" and "is_Exception ex"
  shows "set_enabled e True c s = returns (enable_failed e ex c1 s1)"
  using assms by (simp add: set_enabled_def)

lemma set_enabled_hook_raises:
  assumes "\<not> enabled c" and "load_extension e c s = (None, c1, s1)"
    and "module_attr c1 ''on_load'' = Some (Raises ex)" and "is_Exception ex"
  shows "set_enabled e True c s
           = returns (enable_failed e ex (c1\<lparr>error := None, enabled := True\<rparr>)
               (emit (Call (name c1) ''on_load'') s1))"
  using assms by (simp add: set_enabled_def module_attr_def Let_def)

lemma set_enabled_hook_passes:
  assumes "\<not> enabled c" and "load_extension e c s = (None, c1, s1)"
    and "module_attr c1 ''on_load'' = Some (Raises ex)" and "\<not> is_Exception ex"
  shows "set_enabled e True c s
           = (Some ex, c1\<lparr>error := None, enabled := True\<rparr>,
              emit (Call (name c1) ''on_load'') s1)"
  using assms by (simp add: set_enabled_def module_attr_def Let_def)

lemma load_extension_unavailable:
  assumes "module c = None" and "available_for_current_ui e (metadata c) = Inr False"
  shows "\<exists>v. metadata c ''only_for'' = Some v
              \<and> load_extension e c s
                  = (None, c, emit (Log Info fmt_not_loading
                                      [ArgStr (name c), ArgAttr (Str v)]) s)"
proof -
  have dd: "data_descriptors ''only_for'' = None"
    by (simp add: data_descriptors_def)
  have nf: "\<not> resolves_without_field e ''only_for''"
    by (simp add: resolves_without_field_def data_descriptors_def class_attributes_def
        DEFAULTS_def)
  show ?thesis
  proof (cases "metadata c ''only_for''")
    case None
    then have "available_for_current_ui e (metadata c) = Inr True"
      using check_ui_absent [of "metadata c" "''only_for''" e True] nf
      by (simp add: available_for_current_ui_def)
    with assms(2) show ?thesis by simp
  next
    case (Some v)
    then have "getattr_md e (metadata c) ''only_for'' = Inr (Str v)"
      by (simp add: getattr_md_def dd)
    with assms Some show ?thesis
      by (simp add: load_extension_def)
  qed
qed

text \<open>
  C1 (amended). For every container that is not enabled and whose load raises an
  ImportError, set_enabled(true) leaves the enabled flag false and stores an error: when
  the ImportError carries a non-empty module name, an error of the MissingDependency
  family whose dependency is that name and whose cause is the ImportError; when it
  carries no name, the ImportError itself. The call itself raises nothing.
\<close>

theorem set_enabled_import_failure:
  assumes "\<not> enabled c"
    and "load_extension e c s = (Some (ImportError nm msg), c1, s1)"
  shows "fst (set_enabled e True c s) = None
         \<and> \<not> enabled (fst (snd (set_enabled e True c s)))
         \<and> (case error (fst (snd (set_enabled e True c s))) of
              None \<Rightarrow> False
            | Some err \<Rightarrow>
                if nm = None \<or> nm = Some [] then err = ImportError nm msg
                else is_MissingDependency err \<and> dependency err = nm
                     \<and> cause err = Some (ImportError nm msg))"
proof -
  have run: "set_enabled e True c s = returns (enable_failed e (ImportError nm msg) c1 s1)"
    using assms by (simp add: set_enabled_load_raises)
  show ?thesis
    by (cases nm)
       (simp_all add: run returns_def enable_failed_fields enable_failed_error_import)
qed

theorem set_enabled_import_failure_witness:
  "\<not> enabled broken
   \<and> fst (load_extension host0 broken s0)
       = Some (ImportError (Some ''nonexistent_module'') ''No module named nonexistent_module'')
   \<and> fst (set_enabled host0 True broken s0) = None
   \<and> \<not> enabled (fst (snd (set_enabled host0 True broken s0)))
   \<and> map_option is_MissingDependency (error (fst (snd (set_enabled host0 True broken s0))))
       = Some True
   \<and> map_option dependency (error (fst (snd (set_enabled host0 True broken s0))))
       = Some (Some ''nonexistent_module'')"
proof -
  have off: "\<not> enabled broken"
    by (simp add: broken_def ExtensionContainer_init_def)
  obtain c1 s1 where load: "load_extension host0 broken s0
      = (Some (ImportError (Some ''nonexistent_module'') ''No module named nonexistent_module''),
         c1, s1)"
    by (simp add: metadata_eval container_eval broken_def host0_def s0_def)
  show ?thesis
    using set_enabled_import_failure [OF off load] off load
    by (auto split: option.splits)
qed

text \<open>
  C1, as stated, fails: the error stored for an extension that imports a module that does
  not exist is built with \<open>MissingCommand\<close>; it is not of the MissingModule kind.
\<close>

theorem set_enabled_import_failure_counterexample:
  "error (fst (snd (set_enabled host0 True broken s0)))
     = Some (MissingCommand ''Python module not found: nonexistent_module''
               ''nonexistent_module''
               (Some (ImportError (Some ''nonexistent_module'')
                        ''No module named nonexistent_module'')))
   \<and> map_option is_MissingModule (error (fst (snd (set_enabled host0 True broken s0))))
       = Some False"
  by (simp add: metadata_eval container_eval broken_def host0_def s0_def)

text \<open>
  C2 (amended). For every container that is not enabled, has no module, and whose
  metadata's available_for_current_ui is false, set_enabled(true) leaves module null,
  records no error and logs the skip at level info only, and marks the container enabled.
  The call itself raises nothing.
\<close>

theorem set_enabled_unavailable:
  assumes "\<not> enabled c" and "module c = None"
    and "available_for_current_ui e (metadata c) = Inr False"
  shows "fst (set_enabled e True c s) = None
         \<and> module (fst (snd (set_enabled e True c s))) = None
         \<and> error (fst (snd (set_enabled e True c s))) = None
         \<and> enabled (fst (snd (set_enabled e True c s))) = True
         \<and> (\<exists>v. trace (snd (snd (set_enabled e True c s)))
                   = trace s @ [Log Info fmt_not_loading
                                  [ArgStr (name c), ArgAttr (Str v)]])"
proof -
  obtain v where load: "load_extension e c s
      = (None, c, emit (Log Info fmt_not_loading
                          [ArgStr (name c), ArgAttr (Str v)]) s)"
    using load_extension_unavailable [OF assms(2,3)] by blast
  have run: "set_enabled e True c s
      = (None, c\<lparr>error := None, enabled := True\<rparr>,
         emit (Log Info fmt_not_loading
                 [ArgStr (name c), ArgAttr (Str v)]) s)"
    using assms(1,2) by (simp add: set_enabled_def load module_attr_def)
  show ?thesis
    using assms(2) by (simp add: run emit_def)
qed

theorem set_enabled_unavailable_witness:
  "\<not> enabled unity_only \<and> module unity_only = None
   \<and> available_for_current_ui host0 (metadata unity_only) = Inr False
   \<and> fst (set_enabled host0 True unity_only s0) = None
   \<and> module (fst (snd (set_enabled host0 True unity_only s0))) = None
   \<and> error (fst (snd (set_enabled host0 True unity_only s0))) = None
   \<and> enabled (fst (snd (set_enabled host0 True unity_only s0))) = True"
proof -
  have a: "\<not> enabled unity_only" and b: "module unity_only = None"
    by (simp_all add: unity_only_def ExtensionContainer_init_def)
  have c: "available_for_current_ui host0 (metadata unity_only) = Inr False"
    by (simp add: metadata_eval unity_only_def ExtensionContainer_init_def host0_def)
  show ?thesis
    using set_enabled_unavailable [OF a b c, of s0] a b c by simp
qed

text \<open>
  C2, as stated, fails: an extension declared only for a UI that is not the current one
  ends up with its enabled flag true.
\<close>

theorem set_enabled_unavailable_counterexample:
  "available_for_current_ui host0 (metadata unity_only) = Inr False
   \<and> enabled (fst (snd (set_enabled host0 True unity_only s0))) = True"
  by (simp add: metadata_eval container_eval unity_only_def host0_def s0_def)

text \<open>
  C3 (amended). For every container that is not enabled, whose load returns normally and
  whose module's on_load hook raises, set_enabled(true) calls the hook once and keeps the
  module. When the hook raises an instance of Exception, the exception is not
  propagated: the failure is logged, the enabled flag is set back to false and an error
  is stored, which is the raised exception itself, except that an ImportError carrying a
  non-empty module name is stored as an error of the MissingDependency family whose
  dependency is that name and whose cause is the ImportError. When the hook raises
  outside Exception (SystemExit, KeyboardInterrupt), the exception propagates, nothing is
  logged, and the container is left enabled with its error cleared.
\<close>

theorem set_enabled_on_load_raises:
  assumes "\<not> enabled c"
    and "load_extension e c s = (None, c1, s1)"
    and "module_attr c1 ''on_load'' = Some (Raises ex)"
  shows "module (fst (snd (set_enabled e True c s))) = module c1
         \<and> (is_Exception ex \<longrightarrow>
               fst (set_enabled e True c s) = None
               \<and> \<not> enabled (fst (snd (set_enabled e True c s)))
               \<and> (case error (fst (snd (set_enabled e True c s))) of
                    None \<Rightarrow> False
                  | Some err \<Rightarrow>
                      (case ex of
                         ImportError nm msg \<Rightarrow>
                           if nm = None \<or> nm = Some [] then err = ex
                           else is_MissingDependency err \<and> dependency err = nm
                                \<and> cause err = Some ex
                       | _ \<Rightarrow> err = ex))
               \<and> trace (snd (snd (set_enabled e True c s)))
                   = trace s1 @ [Call (name c1) ''on_load'',
                                 Log Error ''Cannot load %s from %s: %s''
                                   [ArgStr (name c1), opt_arg (filename c1), ArgExn ex]])
         \<and> (\<not> is_Exception ex \<longrightarrow>
               fst (set_enabled e True c s) = Some ex
               \<and> enabled (fst (snd (set_enabled e True c s)))
               \<and> error (fst (snd (set_enabled e True c s))) = None
               \<and> trace (snd (snd (set_enabled e True c s)))
                   = trace s1 @ [Call (name c1) ''on_load''])"
proof (cases "is_Exception ex")
  case True
  have run: "set_enabled e True c s
      = returns (enable_failed e ex (c1\<lparr>error := None, enabled := True\<rparr>)
          (emit (Call (name c1) ''on_load'') s1))"
    using assms True by (rule set_enabled_hook_raises)
  have stored: "case error (fst (enable_failed e ex (c1\<lparr>error := None, enabled := True\<rparr>)
                                  (emit (Call (name c1) ''on_load'') s1))) of
                  None \<Rightarrow> False
                | Some err \<Rightarrow>
                    (case ex of
                       ImportError nm msg \<Rightarrow>
                         if nm = None \<or> nm = Some [] then err = ex
                         else is_MissingDependency err \<and> dependency err = nm
                              \<and> cause err = Some ex
                     | _ \<Rightarrow> err = ex)"
  proof (cases ex)
    case (ImportError nm msg)
    then show ?thesis
      by (cases nm) (simp_all add: enable_failed_error_import)
  qed (simp_all add: enable_failed_error_other)
  show ?thesis
    using True stored by (simp add: run returns_def enable_failed_fields emit_def)
next
  case False
  have run: "set_enabled e True c s
      = (Some ex, c1\<lparr>error := None, enabled := True\<rparr>,
         emit (Call (name c1) ''on_load'') s1)"
    using assms False by (rule set_enabled_hook_passes)
  show ?thesis
    using False by (simp add: run emit_def)
qed

theorem set_enabled_on_load_raises_witness:
  "\<not> enabled hook_fails
   \<and> fst (load_extension host0 hook_fails s0) = None
   \<and> fst (set_enabled host0 True hook_fails s0) = None
   \<and> \<not> enabled (fst (snd (set_enabled host0 True hook_fails s0)))
   \<and> error (fst (snd (set_enabled host0 True hook_fails s0))) = Some (Exception ''boom'')
   \<and> module (fst (snd (set_enabled host0 True hook_fails s0))) \<noteq> None
   \<and> map_option dependency (error (fst (snd (set_enabled host0 True hook_imports s0))))
       = Some (Some ''dbus'')
   \<and> fst (set_enabled host0 True hook_exits s0) = Some SystemExit
   \<and> enabled (fst (snd (set_enabled host0 True hook_exits s0)))"
proof -
  have off: "\<not> enabled hook_fails"
    by (simp add: hook_fails_def ExtensionContainer_init_def)
  obtain c1 s1 where load: "load_extension host0 hook_fails s0 = (None, c1, s1)"
    and hook: "module_attr c1 ''on_load'' = Some (Raises (Exception ''boom''))"
    by (simp add: metadata_eval container_eval hook_fails_def host0_def s0_def)
  have loaded: "module c1 \<noteq> None"
    using hook by (auto simp: module_attr_def split: option.splits)
  have fails: "fst (set_enabled host0 True hook_fails s0) = None
      \<and> \<not> enabled (fst (snd (set_enabled host0 True hook_fails s0)))
      \<and> error (fst (snd (set_enabled host0 True hook_fails s0))) = Some (Exception ''boom'')
      \<and> module (fst (snd (set_enabled host0 True hook_fails s0))) \<noteq> None"
    using set_enabled_on_load_raises [OF off load hook] loaded
    by (auto split: option.splits)
  have off2: "\<not> enabled hook_imports"
    by (simp add: hook_imports_def ExtensionContainer_init_def)
  obtain c2 s2 where load2: "load_extension host0 hook_imports s0 = (None, c2, s2)"
    and hook2: "module_attr c2 ''on_load''
                  = Some (Raises (ImportError (Some ''dbus'') ''No module named dbus''))"
    by (simp add: metadata_eval container_eval hook_imports_def host0_def s0_def)
  have wrapped: "map_option dependency
      (error (fst (snd (set_enabled host0 True hook_imports s0)))) = Some (Some ''dbus'')"
    using set_enabled_on_load_raises [OF off2 load2 hook2]
    by (auto split: option.splits)
  have off3: "\<not> enabled hook_exits"
    by (simp add: hook_exits_def ExtensionContainer_init_def)
  obtain c3 s3 where load3: "load_extension host0 hook_exits s0 = (None, c3, s3)"
    and hook3: "module_attr c3 ''on_load'' = Some (Raises SystemExit)"
    by (simp add: container_eval hook_exits_def)
  have exits: "fst (set_enabled host0 True hook_exits s0) = Some SystemExit
      \<and> enabled (fst (snd (set_enabled host0 True hook_exits s0)))"
    using set_enabled_on_load_raises [OF off3 load3 hook3]
    by simp
  from off load fails wrapped exits show ?thesis
    by simp
qed

text \<open>
  C3, as stated, fails: when the module loads and its \<open>on_load\<close> raises, the container is
  left disabled and the exception is stored as its error.
\<close>

theorem set_enabled_on_load_raises_counterexample:
  "fst (load_extension host0 hook_fails s0) = None
   \<and> enabled (fst (snd (set_enabled host0 True hook_fails s0))) = False
   \<and> error (fst (snd (set_enabled host0 True hook_fails s0))) = Some (Exception ''boom'')"
  by (simp add: metadata_eval container_eval hook_fails_def host0_def s0_def)

section \<open>Event dispatch\<close>

lemma call_step_eq:
  "call_step m c (r, s)
     = (aborts m c, foldl spec_aggregate r (hook_returns m c),
        s\<lparr>trace := trace s @ dispatch_events m c\<rparr>)"
proof (cases "visited m c")
  case False
  then show ?thesis
    by (auto simp: call_step_def visited_def hook_returns_def dispatch_events_def aborts_def
        split: option.splits)
next
  case True
  then obtain callback md where cb: "module_attr c m = Some callback"
    and on: "enabled c" and md: "module c = Some md"
    by (auto simp: visited_def)
  show ?thesis
  proof (cases callback)
    case (Returns v)
    with True cb on md show ?thesis
      by (simp add: call_step_def hook_returns_def dispatch_events_def aborts_def
          spec_aggregate_def emit_def Let_def)
  next
    case (Raises ex)
    with True cb on md show ?thesis
      by (simp add: call_step_def hook_returns_def dispatch_events_def aborts_def emit_def
          Let_def)
  qed
qed

lemma call_loop_eq:
  "call_loop m cs (r, s)
     = (first_abort m cs,
        foldl spec_aggregate r (concat (map (hook_returns m) (dispatched m cs))),
        s\<lparr>trace := trace s @ concat (map (dispatch_events m) (dispatched m cs))\<rparr>)"
proof (induction cs arbitrary: r s)
  case Nil
  show ?case by simp
next
  case (Cons c cs)
  show ?case
  proof (cases "aborts m c")
    case None
    then show ?thesis
      by (simp add: call_step_eq Cons.IH)
  next
    case (Some ex)
    then show ?thesis
      by (simp add: call_step_eq)
  qed
qed


lemma dispatched_all:
  assumes "first_abort m cs = None"
  shows "dispatched m cs = cs"
  using assms by (induction cs) (auto split: option.splits)

lemma dispatched_append:
  assumes "first_abort m pre = None"
  shows "dispatched m (pre @ xs) = pre @ dispatched m xs"
    and "first_abort m (pre @ xs) = first_abort m xs"
  using assms by (induction pre) (auto split: option.splits)

lemma raising_contributes:
  assumes "enabled c" and "module c = Some md" and "md m = Some (Raises ex)"
  shows "hook_returns m c = []"
    and "dispatch_events m c
           = Call (name c) m #
             (if is_Exception ex
              then [Log Error ''Error in %s in %s: %s''
                      [opt_arg (filename c), ArgStr m, ArgExn ex]]
              else [])"
    and "aborts m c = (if is_Exception ex then None else Some ex)"
  using assms
  by (simp_all add: hook_returns_def dispatch_events_def aborts_def visited_def module_attr_def)

lemma Call_in_dispatch_events:
  assumes "visited m d"
  shows "Call (name d) m \<in> set (dispatch_events m d)"
  using assms by (simp add: dispatch_events_def)



text \<open>
  C4 (amended). In a dispatch of a hook over a list of containers, take a container that
  is enabled and loaded, whose hook raises, and that the dispatch reaches. When the hook
  raises an instance of Exception, the dispatch is not interrupted: the aggregate (and
  the outcome) is the one of the dispatch without that container, its call and one logged
  error are recorded between what the containers before it and the containers after it
  record, and the hook of every later container that is enabled, loaded and defines it is
  still invoked (unless a later hook itself raises outside Exception). When the hook
  raises outside Exception (SystemExit, KeyboardInterrupt), the exception leaves the
  dispatch: nothing is logged and no later container is visited.
\<close>

theorem dispatch_isolates_failure:
  assumes "enabled c" and "module c = Some md" and "md m = Some (Raises ex)"
    and "first_abort m pre = None"
  shows "(is_Exception ex \<longrightarrow>
            fst (call_loop m (pre @ c # post) (r, s)) = fst (call_loop m (pre @ post) (r, s))
            \<and> fst (snd (call_loop m (pre @ c # post) (r, s)))
                = fst (snd (call_loop m (pre @ post) (r, s)))
            \<and> trace (snd (snd (call_loop m (pre @ c # post) (r, s))))
                = trace (snd (snd (call_loop m pre (r, s))))
                  @ [Call (name c) m,
                     Log Error ''Error in %s in %s: %s''
                       [opt_arg (filename c), ArgStr m, ArgExn ex]]
                  @ concat (map (dispatch_events m) (dispatched m post))
            \<and> (first_abort m post = None \<longrightarrow>
                  fst (call_loop m (pre @ c # post) (r, s)) = None
                  \<and> (\<forall>d \<in> set post. visited m d \<longrightarrow>
                        Call (name d) m
                          \<in> set (trace (snd (snd (call_loop m (pre @ c # post) (r, s))))))))
         \<and> (\<not> is_Exception ex \<longrightarrow>
              call_loop m (pre @ c # post) (r, s)
                = (Some ex, fst (snd (call_loop m pre (r, s))),
                   emit (Call (name c) m) (snd (snd (call_loop m pre (r, s))))))"
proof (cases "is_Exception ex")
  case True
  note rc = raising_contributes [OF assms(1,2,3)]
  have quiet: "aborts m c = None"
    using True by (simp add: rc)
  have reach: "dispatched m (pre @ c # post) = pre @ c # dispatched m post"
    "first_abort m (pre @ c # post) = first_abort m post"
    "dispatched m (pre @ post) = pre @ dispatched m post"
    "first_abort m (pre @ post) = first_abort m post"
    "dispatched m pre = pre"
    using dispatched_append [OF assms(4)] dispatched_all [OF assms(4)] quiet by simp_all
  have out: "fst (call_loop m (pre @ c # post) (r, s)) = fst (call_loop m (pre @ post) (r, s))"
    by (simp add: call_loop_eq reach)
  have agg: "fst (snd (call_loop m (pre @ c # post) (r, s)))
               = fst (snd (call_loop m (pre @ post) (r, s)))"
    by (simp add: call_loop_eq reach rc)
  have tr: "trace (snd (snd (call_loop m (pre @ c # post) (r, s))))
              = trace (snd (snd (call_loop m pre (r, s))))
                @ [Call (name c) m,
                   Log Error ''Error in %s in %s: %s''
                     [opt_arg (filename c), ArgStr m, ArgExn ex]]
                @ concat (map (dispatch_events m) (dispatched m post))"
    using True by (simp add: call_loop_eq reach rc)
  have later: "fst (call_loop m (pre @ c # post) (r, s)) = None
      \<and> (\<forall>d \<in> set post. visited m d \<longrightarrow>
            Call (name d) m \<in> set (trace (snd (snd (call_loop m (pre @ c # post) (r, s))))))"
    if all: "first_abort m post = None"
  proof -
    have none: "fst (call_loop m (pre @ c # post) (r, s)) = None"
      by (simp add: call_loop_eq reach all)
    have "Call (name d) m \<in> set (trace (snd (snd (call_loop m (pre @ c # post) (r, s)))))"
      if "d \<in> set post" and "visited m d" for d
    proof -
      have "Call (name d) m \<in> set (concat (map (dispatch_events m) post))"
        using that Call_in_dispatch_events by fastforce
      then show ?thesis
        by (simp add: tr dispatched_all [OF all])
    qed
    with none show ?thesis
      by blast
  qed
  from True out agg tr later show ?thesis
    by blast
next
  case False
  note rc = raising_contributes [OF assms(1,2,3)]
  have stop: "aborts m c = Some ex"
    using False by (simp add: rc)
  have reach: "dispatched m (pre @ c # post) = pre @ [c]"
    "first_abort m (pre @ c # post) = Some ex"
    "dispatched m pre = pre"
    using dispatched_append [OF assms(4)] dispatched_all [OF assms(4)] stop by simp_all
  have "call_loop m (pre @ c # post) (r, s)
      = (Some ex, fst (snd (call_loop m pre (r, s))),
         emit (Call (name c) m) (snd (snd (call_loop m pre (r, s)))))"
    using False by (simp add: call_loop_eq reach rc emit_def)
  with False show ?thesis
    by simp
qed

theorem dispatch_isolates_failure_witness:
  "enabled ext_raising
   \<and> call_loop ''on_create_menu'' [ext_a, ext_raising, ext_b] (PyNone, s0)
     = (None, PyList [menu_entry ''x'' ''f'', menu_entry ''y'' ''g''],
        s0\<lparr>trace :=
             [Call ''a'' ''on_create_menu'',
              Call ''r'' ''on_create_menu'',
              Log Error ''Error in %s in %s: %s''
                [ArgStr ''/ext/r.py'', ArgStr ''on_create_menu'', ArgExn (Exception ''boom'')],
              Call ''b'' ''on_create_menu'']\<rparr>)
   \<and> call_loop ''on_create_menu'' [ext_a, ext_exiting, ext_b] (PyNone, s0)
     = (Some SystemExit, PyList [menu_entry ''x'' ''f''],
        s0\<lparr>trace := [Call ''a'' ''on_create_menu'', Call ''q'' ''on_create_menu'']\<rparr>)"
proof -
  have on: "enabled ext_raising"
    and md: "module ext_raising = Some [''on_create_menu'' \<mapsto> Raises (Exception ''boom'')]"
    by (simp_all add: ext_raising_def loaded_def)
  have hook: "[''on_create_menu'' \<mapsto> Raises (Exception ''boom'')] ''on_create_menu''
                = Some (Raises (Exception ''boom''))"
    by simp
  have on': "enabled ext_exiting"
    and md': "module ext_exiting = Some [''on_create_menu'' \<mapsto> Raises SystemExit]"
    by (simp_all add: ext_exiting_def loaded_def)
  have hook': "[''on_create_menu'' \<mapsto> Raises SystemExit] ''on_create_menu''
                 = Some (Raises SystemExit)"
    by simp
  have va: "visited ''on_create_menu'' ext_a" and vb: "visited ''on_create_menu'' ext_b"
    by (simp_all add: visited_def module_attr_def ext_a_def ext_b_def loaded_def)
  have na: "name ext_a = ''a''" and nb: "name ext_b = ''b''" and nr: "name ext_raising = ''r''"
    and nq: "name ext_exiting = ''q''"
    and fr: "filename ext_raising = Some ''/ext/r.py''"
    by (simp_all add: ext_a_def ext_b_def ext_raising_def ext_exiting_def loaded_def
        ExtensionContainer_init_def)
  have ra: "hook_returns ''on_create_menu'' ext_a = [PyList [menu_entry ''x'' ''f'']]"
    and rb: "hook_returns ''on_create_menu'' ext_b = [PyList [menu_entry ''y'' ''g'']]"
    using va vb by (simp_all add: hook_returns_def module_attr_def ext_a_def ext_b_def loaded_def)
  have ea: "dispatch_events ''on_create_menu'' ext_a = [Call ''a'' ''on_create_menu'']"
    and eb: "dispatch_events ''on_create_menu'' ext_b = [Call ''b'' ''on_create_menu'']"
    using va vb na nb
    by (simp_all add: dispatch_events_def module_attr_def ext_a_def ext_b_def loaded_def)
  have qa: "aborts ''on_create_menu'' ext_a = None" and qb: "aborts ''on_create_menu'' ext_b = None"
    by (simp_all add: aborts_def module_attr_def ext_a_def ext_b_def loaded_def)
  have pre: "first_abort ''on_create_menu'' [ext_a] = None"
    by (simp add: qa)
  have without: "call_loop ''on_create_menu'' [ext_a, ext_b] (PyNone, s0)
      = (None, PyList [menu_entry ''x'' ''f'', menu_entry ''y'' ''g''],
         s0\<lparr>trace := [Call ''a'' ''on_create_menu'', Call ''b'' ''on_create_menu'']\<rparr>)"
    by (simp add: call_loop_eq qa qb ra rb ea eb spec_aggregate_def s0_def del: call_loop.simps)
  have before: "call_loop ''on_create_menu'' [ext_a] (PyNone, s0)
      = (None, PyList [menu_entry ''x'' ''f''], s0\<lparr>trace := [Call ''a'' ''on_create_menu'']\<rparr>)"
    by (simp add: call_loop_eq qa ra ea spec_aggregate_def s0_def del: call_loop.simps)
  have ext: "extensions_enabled (snd (snd (call_loop ''on_create_menu''
               [ext_a, ext_raising, ext_b] (PyNone, s0)))) = extensions_enabled s0"
    by (simp add: call_loop_eq del: call_loop.simps)
  have "fst (call_loop ''on_create_menu'' [ext_a, ext_raising, ext_b] (PyNone, s0)) = None
        \<and> fst (snd (call_loop ''on_create_menu'' [ext_a, ext_raising, ext_b] (PyNone, s0)))
          = PyList [menu_entry ''x'' ''f'', menu_entry ''y'' ''g'']
        \<and> trace (snd (snd (call_loop ''on_create_menu'' [ext_a, ext_raising, ext_b]
                              (PyNone, s0))))
          = [Call ''a'' ''on_create_menu'',
             Call ''r'' ''on_create_menu'',
             Log Error ''Error in %s in %s: %s''
               [ArgStr ''/ext/r.py'', ArgStr ''on_create_menu'', ArgExn (Exception ''boom'')],
             Call ''b'' ''on_create_menu'']"
    using dispatch_isolates_failure [OF on md hook pre, of "[ext_b]" PyNone s0]
    by (simp add: without before qb eb nr fr opt_arg_def del: call_loop.simps)
  with ext have isolated: "call_loop ''on_create_menu'' [ext_a, ext_raising, ext_b] (PyNone, s0)
     = (None, PyList [menu_entry ''x'' ''f'', menu_entry ''y'' ''g''],
        s0\<lparr>trace :=
             [Call ''a'' ''on_create_menu'',
              Call ''r'' ''on_create_menu'',
              Log Error ''Error in %s in %s: %s''
                [ArgStr ''/ext/r.py'', ArgStr ''on_create_menu'', ArgExn (Exception ''boom'')],
              Call ''b'' ''on_create_menu'']\<rparr>)"
    by (cases "call_loop ''on_create_menu'' [ext_a, ext_raising, ext_b] (PyNone, s0)")
       (simp add: s0_def del: call_loop.simps)
  have passed: "call_loop ''on_create_menu'' [ext_a, ext_exiting, ext_b] (PyNone, s0)
     = (Some SystemExit, PyList [menu_entry ''x'' ''f''],
        s0\<lparr>trace := [Call ''a'' ''on_create_menu'', Call ''q'' ''on_create_menu'']\<rparr>)"
    using dispatch_isolates_failure [OF on' md' hook' pre, of "[ext_b]" PyNone s0]
    by (simp add: before nq emit_def del: call_loop.simps)
  from on isolated passed show ?thesis
    by (simp del: call_loop.simps)
qed

text \<open>
  C4, as stated, fails: when the hook of the second of three enabled, loaded containers
  raises \<open>SystemExit\<close>, the exception leaves the dispatch; the hook of the third is not
  invoked and nothing is logged.
\<close>

theorem dispatch_isolates_failure_counterexample:
  "visited ''on_create_menu'' ext_b
   \<and> call_loop ''on_create_menu'' [ext_a, ext_exiting, ext_b] (PyNone, s0)
     = (Some SystemExit, PyList [PyTuple [PyStr ''x'', PyCallable ''f'']],
        \<lparr>trace = [Call ''a'' ''on_create_menu'', Call ''q'' ''on_create_menu''],
         extensions_enabled = [''broken'', ''other'']\<rparr>)"
  by (simp add: call_step_def visited_def module_attr_def ext_a_def ext_b_def ext_exiting_def
      loaded_def ExtensionContainer_init_def menu_entry_def emit_def s0_def)



section \<open>Discovery\<close>

lemma rfind_last:
  assumes "c \<notin> set ys"
  shows "rfind c (xs @ c # ys) = Some (length xs)"
proof -
  have "takeWhile (\<lambda>x. x \<noteq> c) (rev ys @ c # rev xs) = rev ys"
    using assms by (auto simp: takeWhile_tail)
  then show ?thesis
    by (simp add: rfind_def)
qed

lemma rfind_absent:
  assumes "c \<notin> set p"
  shows "rfind c p = None"
  using assms by (simp add: rfind_def)

lemma basename_in_dir:
  assumes "CHR ''/'' \<notin> set base" and "dir = [] \<or> last dir = CHR ''/''"
  shows "basename (dir @ base) = base"
proof (cases "dir = []")
  case True
  then show ?thesis
    using assms(1) by (simp add: basename_def rfind_absent)
next
  case False
  then obtain d where dir: "dir = d @ ''/''"
    using assms(2) by (metis append_butlast_last_id)
  have "rfind CHR ''/'' (d @ CHR ''/'' # base) = Some (length d)"
    using assms(1) by (rule rfind_last)
  then show ?thesis
    by (simp add: basename_def dir)
qed

lemma splitext_plain:
  assumes "CHR ''/'' \<notin> set base" and "CHR ''.'' \<notin> set ext" and "CHR ''/'' \<notin> set ext"
    and "\<exists>c \<in> set base. c \<noteq> CHR ''.''"
  shows "splitext (base @ ''.'' @ ext) = (base, ''.'' @ ext)"
proof -
  have dot: "rfind CHR ''.'' (base @ CHR ''.'' # ext) = Some (length base)"
    using assms(2) by (rule rfind_last)
  have sep: "rfind CHR ''/'' (base @ CHR ''.'' # ext) = None"
    using assms(1,3) by (simp add: rfind_absent)
  have "list_ex (\<lambda>c. c \<noteq> CHR ''.'') base"
    using assms(4) by (simp add: list_ex_iff)
  then show ?thesis
    by (simp add: splitext_def dot sep)
qed

lemma strip_ordering_prefix_digits:
  assumes "list_all is_digit ds"
  shows "strip_ordering_prefix (ds @ ''_'' @ stem) = stem"
proof -
  have "\<not> is_digit CHR ''_''"
    by (simp add: is_digit_def)
  then have "dropWhile is_digit (ds @ CHR ''_'' # stem) = CHR ''_'' # stem"
    using assms by (simp add: dropWhile_append2 list_all_iff)
  then show ?thesis
    by (simp add: strip_ordering_prefix_def)
qed

lemma derived_name_prefixed:
  assumes "list_all is_digit ds" and "CHR ''/'' \<notin> set stem"
    and "CHR ''.'' \<notin> set ext" and "CHR ''/'' \<notin> set ext"
    and "dir = [] \<or> last dir = CHR ''/''"
  shows "derived_name (dir @ ds @ ''_'' @ stem @ ''.'' @ ext) = stem"
proof -
  let ?base = "ds @ ''_'' @ stem"
  have digits: "CHR ''/'' \<notin> set ds"
    using assms(1) by (auto simp: list_all_iff is_digit_def)
  have nosep: "CHR ''/'' \<notin> set (?base @ ''.'' @ ext)"
    using digits assms(2,4) by simp
  have base: "basename (dir @ ?base @ ''.'' @ ext) = ?base @ ''.'' @ ext"
    using basename_in_dir [OF nosep assms(5)] by simp
  have nosep': "CHR ''/'' \<notin> set ?base"
    using digits assms(2) by simp
  have nondot: "\<exists>c \<in> set ?base. c \<noteq> CHR ''.''"
    by (rule bexI [of _ "CHR ''_''"]) simp_all
  have "splitext (?base @ ''.'' @ ext) = (?base, ''.'' @ ext)"
    using nosep' assms(3,4) nondot by (rule splitext_plain)
  then have "derived_name (dir @ ?base @ ''.'' @ ext) = strip_ordering_prefix ?base"
    using base by (simp add: derived_name_def)
  then show ?thesis
    using strip_ordering_prefix_digits [OF assms(1), of stem] by simp
qed

lemma scan_filenames_fst:
  "fst (scan_filenames e fs ext s)
     = foldl (\<lambda>acc f. if candidate e f then AList.update (derived_name f) f acc else acc) ext fs"
  by (induction fs arbitrary: ext s) (simp_all add: candidate_def derived_name_def Let_def)

lemma map_of_scan:
  "map_of (foldl (\<lambda>acc f. if candidate e f then AList.update (derived_name f) f acc else acc)
             ext fs) n
     = (case filter (\<lambda>f. candidate e f \<and> derived_name f = n) fs of
          [] \<Rightarrow> map_of ext n
        | x # xs \<Rightarrow> Some (last (x # xs)))"
proof (induction fs arbitrary: ext)
  case Nil
  show ?case by simp
next
  case (Cons f fs)
  show ?case
    by (simp add: Cons.IH update_conv' split: list.splits)
qed

lemma distinct_scan:
  assumes "distinct (map fst ext)"
  shows "distinct (map fst (foldl (\<lambda>acc f. if candidate e f
            then AList.update (derived_name f) f acc else acc) ext fs))"
  using assms by (induction fs arbitrary: ext) (simp_all add: distinct_update)

lemma distinct_keys_sort_key:
  "distinct (map fst (sort_key snd xs)) = distinct (map fst xs)"
  by (simp add: distinct_map)

lemma map_of_sort_key:
  assumes "distinct (map fst xs)"
  shows "map_of (sort_key snd xs) = map_of xs"
  using assms by (simp add: map_of_inject_set distinct_keys_sort_key)

lemma last_filter_append:
  assumes "u \<in> set us" and "P u"
  shows "\<exists>x xs. filter P (bs @ us) = x # xs \<and> last (x # xs) \<in> set us"
proof -
  have ne: "filter P us \<noteq> []"
    using assms by (auto simp: filter_empty_conv)
  then have "last (filter P (bs @ us)) = last (filter P us)"
    by simp
  moreover have "last (filter P us) \<in> set (filter P us)"
    using ne by (rule last_in_set)
  moreover obtain x xs where "filter P (bs @ us) = x # xs"
    using ne by (cases "filter P (bs @ us)") auto
  ultimately show ?thesis
    by auto
qed

lemma rfind_Some_split:
  assumes "rfind c p = Some d"
  shows "p = take d p @ c # drop (Suc d) p \<and> c \<notin> set (drop (Suc d) p)"
proof -
  have "c \<in> set p"
    using assms by (simp add: rfind_def split: if_splits)
  then obtain ys zs where p: "p = ys @ c # zs" and last: "c \<notin> set zs"
    using split_list_last [of c p] by blast
  have "rfind c p = Some (length ys)"
    unfolding p using last by (rule rfind_last)
  with assms have "d = length ys"
    by simp
  with p last show ?thesis
    by simp
qed

lemma splitext_none:
  assumes "CHR ''/'' \<notin> set base"
    and "\<forall>stem ext. CHR ''.'' \<notin> set ext \<and> (\<exists>c \<in> set stem. c \<noteq> CHR ''.'')
           \<longrightarrow> base \<noteq> stem @ ''.'' @ ext"
  shows "splitext base = (base, [])"
proof (cases "rfind CHR ''.'' base")
  case None
  then show ?thesis
    by (simp add: splitext_def)
next
  case (Some d)
  note split = rfind_Some_split [OF Some]
  have "\<not> (\<exists>c \<in> set (take d base). c \<noteq> CHR ''.'')"
  proof
    assume "\<exists>c \<in> set (take d base). c \<noteq> CHR ''.''"
    with split assms(2) have "base \<noteq> take d base @ ''.'' @ drop (Suc d) base"
      by blast
    with split show False
      by simp
  qed
  then have "\<not> list_ex (\<lambda>c. c \<noteq> CHR ''.'') (take d base)"
    by (simp add: list_ex_iff)
  moreover have "rfind CHR ''/'' base = None"
    using assms(1) by (rule rfind_absent)
  ultimately show ?thesis
    by (simp add: splitext_def Some)
qed

lemma strip_ordering_prefix_none:
  assumes "\<forall>ds rest. list_all is_digit ds \<longrightarrow> n \<noteq> ds @ ''_'' @ rest"
  shows "strip_ordering_prefix n = n"
proof (cases "dropWhile is_digit n")
  case Nil
  show ?thesis
    unfolding strip_ordering_prefix_def Nil by simp
next
  case (Cons c rest)
  have "c \<noteq> CHR ''_''"
  proof
    assume "c = CHR ''_''"
    then have "n = takeWhile is_digit n @ ''_'' @ rest"
      using Cons takeWhile_dropWhile_id [of is_digit n] by simp
    moreover have "list_all is_digit (takeWhile is_digit n)"
      by (auto simp: list_all_iff dest: set_takeWhileD)
    ultimately show False
      using assms by blast
  qed
  then show ?thesis
    unfolding strip_ordering_prefix_def Cons by simp
qed

text \<open>
  C6. A discovery pass scans the explicit file list, or else the built-in files followed
  by the user files. Every candidate that exists yields a name: the base name (what
  follows the last slash) without its extension (what starts at the last dot, unless only
  dots precede it) and without a leading prefix of digits and one underscore; a name
  without such a prefix, or a base name without an extension, is kept as it is. The
  result has one entry per name, whose filename is the last candidate with that name (so
  a user file wins over a built-in of the same name), and is sorted by filename.
\<close>

theorem find_extensions_result:
  "(let res = fst (find_extensions e self s);
        fs = filenames (fst (snd (find_extensions e self s)));
        builtins = glob e (path_join (prefix e) [''share'', ''gpodder'', ''extensions'', ''*.py'']);
        user_extensions = glob e (path_join (home e) [''Extensions'', ''*.py''])
    in fs = (if filenames self = [] then builtins @ user_extensions else filenames self)
       \<and> sorted (map snd res)
       \<and> distinct (map fst res)
       \<and> (\<forall>n. map_of res n
                = (case filter (\<lambda>f. candidate e f \<and> derived_name f = n) fs of
                     [] \<Rightarrow> None
                   | x # xs \<Rightarrow> Some (last (x # xs))))
       \<and> (\<forall>u \<in> set user_extensions. filenames self = [] \<and> candidate e u
             \<longrightarrow> (\<exists>u' \<in> set user_extensions. map_of res (derived_name u) = Some u')))
   \<and> (\<forall>dir ds stem ext.
         list_all is_digit ds \<and> CHR ''/'' \<notin> set stem \<and> CHR ''.'' \<notin> set ext
         \<and> CHR ''/'' \<notin> set ext \<and> (dir = [] \<or> last dir = CHR ''/'')
         \<longrightarrow> derived_name (dir @ ds @ ''_'' @ stem @ ''.'' @ ext) = stem)
   \<and> (\<forall>fn. derived_name fn = strip_ordering_prefix (fst (splitext (basename fn))))
   \<and> (\<forall>dir base. CHR ''/'' \<notin> set base \<and> (dir = [] \<or> last dir = CHR ''/'')
         \<longrightarrow> basename (dir @ base) = base)
   \<and> (\<forall>stem ext. CHR ''/'' \<notin> set stem \<and> CHR ''.'' \<notin> set ext \<and> CHR ''/'' \<notin> set ext
         \<and> (\<exists>c \<in> set stem. c \<noteq> CHR ''.'')
         \<longrightarrow> fst (splitext (stem @ ''.'' @ ext)) = stem)
   \<and> (\<forall>base. CHR ''/'' \<notin> set base
         \<and> (\<forall>stem ext. CHR ''.'' \<notin> set ext \<and> (\<exists>c \<in> set stem. c \<noteq> CHR ''.'')
               \<longrightarrow> base \<noteq> stem @ ''.'' @ ext)
         \<longrightarrow> fst (splitext base) = base)
   \<and> (\<forall>ds rest. list_all is_digit ds \<longrightarrow> strip_ordering_prefix (ds @ ''_'' @ rest) = rest)
   \<and> (\<forall>n. (\<forall>ds rest. list_all is_digit ds \<longrightarrow> n \<noteq> ds @ ''_'' @ rest)
         \<longrightarrow> strip_ordering_prefix n = n)"
proof -
  define builtins
    where "builtins = glob e (path_join (prefix e) [''share'', ''gpodder'', ''extensions'', ''*.py''])"
  define user_extensions where "user_extensions = glob e (path_join (home e) [''Extensions'', ''*.py''])"
  define fs where "fs = (if filenames self = [] then builtins @ user_extensions else filenames self)"
  define table where "table = foldl (\<lambda>acc f. if candidate e f
      then AList.update (derived_name f) f acc else acc) [] fs"
  have scanned: "filenames (fst (snd (find_extensions e self s))) = fs"
    by (simp add: find_extensions_def fs_def builtins_def user_extensions_def Let_def
        split: prod.splits)
  have res: "fst (find_extensions e self s) = sort_key snd table"
  proof -
    have "fst (find_extensions e self s) = sort_key snd (fst (scan_filenames e fs [] s))"
      by (simp add: find_extensions_def fs_def builtins_def user_extensions_def Let_def
          split: prod.splits)
    then show ?thesis
      by (simp add: scan_filenames_fst table_def)
  qed
  have dist: "distinct (map fst table)"
    unfolding table_def by (rule distinct_scan) simp
  have srt: "sorted (map snd (sort_key snd table))"
    by (rule sorted_sort_key)
  have dist': "distinct (map fst (sort_key snd table))"
    using dist by (simp only: distinct_keys_sort_key)
  have look: "map_of (sort_key snd table) n
      = (case filter (\<lambda>f. candidate e f \<and> derived_name f = n) fs of
           [] \<Rightarrow> None
         | x # xs \<Rightarrow> Some (last (x # xs)))" for n
    using map_of_scan [of e "[]" fs n, folded table_def]
    by (simp add: map_of_sort_key [OF dist] split: list.splits)
  have user: "\<exists>u' \<in> set user_extensions. map_of (sort_key snd table) (derived_name u) = Some u'"
    if mem: "u \<in> set user_extensions" and unset: "filenames self = []"
      and cand: "candidate e u" for u
  proof -
    have fs: "fs = builtins @ user_extensions"
      using unset by (simp add: fs_def)
    obtain x xs where "filter (\<lambda>f. candidate e f \<and> derived_name f = derived_name u)
          (builtins @ user_extensions) = x # xs"
      and "last (x # xs) \<in> set user_extensions"
      using last_filter_append [of u user_extensions
          "\<lambda>f. candidate e f \<and> derived_name f = derived_name u" builtins] mem cand
      by auto
    then show ?thesis
      by (simp add: look fs)
  qed
  have first: "fs = (if filenames self = [] then builtins @ user_extensions else filenames self)
       \<and> sorted (map snd (sort_key snd table))
       \<and> distinct (map fst (sort_key snd table))
       \<and> (\<forall>n. map_of (sort_key snd table) n
                = (case filter (\<lambda>f. candidate e f \<and> derived_name f = n) fs of
                     [] \<Rightarrow> None
                   | x # xs \<Rightarrow> Some (last (x # xs))))
       \<and> (\<forall>u \<in> set user_extensions. filenames self = [] \<and> candidate e u
             \<longrightarrow> (\<exists>u' \<in> set user_extensions.
                    map_of (sort_key snd table) (derived_name u) = Some u'))"
    using srt dist' look user by (simp add: fs_def)
  have whole: "(let res = fst (find_extensions e self s);
        fs = filenames (fst (snd (find_extensions e self s)));
        builtins = glob e (path_join (prefix e) [''share'', ''gpodder'', ''extensions'', ''*.py'']);
        user_extensions = glob e (path_join (home e) [''Extensions'', ''*.py''])
    in fs = (if filenames self = [] then builtins @ user_extensions else filenames self)
       \<and> sorted (map snd res)
       \<and> distinct (map fst res)
       \<and> (\<forall>n. map_of res n
                = (case filter (\<lambda>f. candidate e f \<and> derived_name f = n) fs of
                     [] \<Rightarrow> None
                   | x # xs \<Rightarrow> Some (last (x # xs))))
       \<and> (\<forall>u \<in> set user_extensions. filenames self = [] \<and> candidate e u
             \<longrightarrow> (\<exists>u' \<in> set user_extensions. map_of res (derived_name u) = Some u')))"
    unfolding Let_def scanned res
    using first
    unfolding builtins_def user_extensions_def
    by blast
  have names: "\<forall>dir ds stem ext.
         list_all is_digit ds \<and> CHR ''/'' \<notin> set stem \<and> CHR ''.'' \<notin> set ext
         \<and> CHR ''/'' \<notin> set ext \<and> (dir = [] \<or> last dir = CHR ''/'')
         \<longrightarrow> derived_name (dir @ ds @ ''_'' @ stem @ ''.'' @ ext) = stem"
    using derived_name_prefixed by blast
  have d: "\<forall>fn. derived_name fn = strip_ordering_prefix (fst (splitext (basename fn)))"
    by (simp add: derived_name_def)
  have b: "\<forall>dir base. CHR ''/'' \<notin> set base \<and> (dir = [] \<or> last dir = CHR ''/'')
         \<longrightarrow> basename (dir @ base) = base"
    using basename_in_dir by blast
  have s1: "\<forall>stem ext. CHR ''/'' \<notin> set stem \<and> CHR ''.'' \<notin> set ext \<and> CHR ''/'' \<notin> set ext
         \<and> (\<exists>c \<in> set stem. c \<noteq> CHR ''.'')
         \<longrightarrow> fst (splitext (stem @ ''.'' @ ext)) = stem"
  proof (intro allI impI)
    fix stem ext
    assume "CHR ''/'' \<notin> set stem \<and> CHR ''.'' \<notin> set ext \<and> CHR ''/'' \<notin> set ext
         \<and> (\<exists>c \<in> set stem. c \<noteq> CHR ''.'')"
    then have "splitext (stem @ ''.'' @ ext) = (stem, ''.'' @ ext)"
      using splitext_plain [of stem ext] by blast
    then show "fst (splitext (stem @ ''.'' @ ext)) = stem"
      by simp
  qed
  have s2: "\<forall>base. CHR ''/'' \<notin> set base
         \<and> (\<forall>stem ext. CHR ''.'' \<notin> set ext \<and> (\<exists>c \<in> set stem. c \<noteq> CHR ''.'')
               \<longrightarrow> base \<noteq> stem @ ''.'' @ ext)
         \<longrightarrow> fst (splitext base) = base"
  proof (intro allI impI)
    fix base
    assume "CHR ''/'' \<notin> set base
         \<and> (\<forall>stem ext. CHR ''.'' \<notin> set ext \<and> (\<exists>c \<in> set stem. c \<noteq> CHR ''.'')
               \<longrightarrow> base \<noteq> stem @ ''.'' @ ext)"
    then have "splitext base = (base, [])"
      using splitext_none [of base] by blast
    then show "fst (splitext base) = base"
      by simp
  qed
  have p1: "\<forall>ds rest. list_all is_digit ds \<longrightarrow> strip_ordering_prefix (ds @ ''_'' @ rest) = rest"
    using strip_ordering_prefix_digits by blast
  have p2: "\<forall>n. (\<forall>ds rest. list_all is_digit ds \<longrightarrow> n \<noteq> ds @ ''_'' @ rest)
         \<longrightarrow> strip_ordering_prefix n = n"
    using strip_ordering_prefix_none by blast
  show ?thesis
    using whole names d b s1 s2 p1 p2 by - (intro conjI; assumption)
qed

theorem find_extensions_result_witness:
  "fst (find_extensions host0 \<lparr>filenames = [''10_foo.py'', ''foo.py''], containers = []\<rparr> s0)
     = [(''foo'', ''foo.py'')]
   \<and> fst (find_extensions host_dirs \<lparr>filenames = [], containers = []\<rparr> s0)
     = [(''foo'', ''/home/user/gPodder/Extensions/foo.py''),
        (''bar'', ''/usr/share/gpodder/extensions/bar.py'')]
   \<and> derived_name ''10_foo.py'' = ''foo''
   \<and> derived_name ''12foo.py'' = ''12foo''
   \<and> derived_name ''/x/.hidden'' = ''.hidden''
   \<and> map_of (fst (find_extensions host0
                     \<lparr>filenames = [''10_foo.py'', ''foo.py''], containers = []\<rparr> s0)) ''foo''
     = Some ''foo.py''"
proof -
  note discovery_eval = find_extensions_def path_join_def path_join2_def splitext_def
    basename_def rfind_def strip_ordering_prefix_def is_digit_def Let_def
  have one: "fst (find_extensions host0
                    \<lparr>filenames = [''10_foo.py'', ''foo.py''], containers = []\<rparr> s0)
      = [(''foo'', ''foo.py'')]"
    by (simp add: discovery_eval host0_def)
  have two: "fst (find_extensions host_dirs \<lparr>filenames = [], containers = []\<rparr> s0)
      = [(''foo'', ''/home/user/gPodder/Extensions/foo.py''),
         (''bar'', ''/usr/share/gpodder/extensions/bar.py'')]"
    by (simp add: discovery_eval host_dirs_def host0_def)
  note general = find_extensions_result
    [of host0 "\<lparr>filenames = [''10_foo.py'', ''foo.py''], containers = []\<rparr>" s0]
  note rest = general [THEN conjunct2]
  have name: "derived_name ([] @ ''10'' @ ''_'' @ ''foo'' @ ''.'' @ ''py'') = ''foo''"
    using rest [THEN conjunct1, rule_format,
        where dir = "[]" and ds = "''10''" and stem = "''foo''" and ext = "''py''"]
    by (simp add: is_digit_def)
  note parts = rest [THEN conjunct2]
  have d: "derived_name ''12foo.py'' = strip_ordering_prefix (fst (splitext (basename ''12foo.py'')))"
    using parts [THEN conjunct1, rule_format, of "''12foo.py''"] .
  have b: "basename ([] @ ''12foo.py'') = ''12foo.py''"
    using parts [THEN conjunct2, THEN conjunct1, rule_format,
        where dir = "[]" and base = "''12foo.py''"]
    by simp
  have s1: "fst (splitext (''12foo'' @ ''.'' @ ''py'')) = ''12foo''"
    using parts [THEN conjunct2, THEN conjunct2, THEN conjunct1, rule_format,
        where stem = "''12foo''" and ext = "''py''"]
    by simp
  have noprefix: "\<forall>ds rest. list_all is_digit ds \<longrightarrow> ''12foo'' \<noteq> ds @ ''_'' @ rest"
  proof (intro allI impI notI)
    fix ds rest
    assume "''12foo'' = ds @ ''_'' @ rest"
    then have "set ''12foo'' = set (ds @ ''_'' @ rest)"
      by (rule arg_cong)
    then have "CHR ''_'' \<in> set ''12foo''"
      by simp
    then show False
      by simp
  qed
  have p2: "strip_ordering_prefix ''12foo'' = ''12foo''"
    using parts [THEN conjunct2, THEN conjunct2, THEN conjunct2, THEN conjunct2, THEN conjunct2,
        rule_format, of "''12foo''"] noprefix
    by blast
  have bare: "derived_name ''12foo.py'' = ''12foo''"
    using d b s1 p2 by simp
  have hidden: "derived_name ''/x/.hidden'' = ''.hidden''"
    by (simp add: derived_name_def discovery_eval)
  have cands: "filter (\<lambda>f. candidate host0 f \<and> derived_name f = ''foo'') [''10_foo.py'', ''foo.py'']
      = [''10_foo.py'', ''foo.py'']"
    by (simp add: candidate_def derived_name_def discovery_eval host0_def)
  have look: "map_of (fst (find_extensions host0
                     \<lparr>filenames = [''10_foo.py'', ''foo.py''], containers = []\<rparr> s0)) ''foo''
      = Some ''foo.py''"
    using general [THEN conjunct1] cands
    by (simp add: Let_def find_extensions_def split: prod.splits)
  from one two name bare hidden look show ?thesis
    by simp
qed

section \<open>Reaction to a configuration change\<close>

















end
